theory Spec2Isabelle
  imports Complex_Main
begin

chapter \<open>mcp-typescript-starter: the HTTP session manager, the server factory and the tool handlers\<close>

text \<open>
  A shallow embedding of the TypeScript sources: the HTTP entry point, the server factory
  of \<^verbatim>\<open>server.ts\<close>, the tools of \<^verbatim>\<open>tools.ts\<close>, and the resource and prompt registrations.
  Line numbers are those of the source files at hand: the HTTP entry point is the second
  part of \<^verbatim>\<open>stdio.ts\<close> (from line 36, after the stdio entry point), the prompts are the
  second part of \<^verbatim>\<open>resources.ts\<close> (from line 102), and \<^verbatim>\<open>tools.ts\<close> is taken in the first
  of its versions (lines 1 to 443).

  Mutable state (the module variable \<^verbatim>\<open>bonusToolLoaded\<close>, the \<^verbatim>\<open>McpServer\<close> objects, the
  transport objects and the \<^verbatim>\<open>transports\<close> map) is passed explicitly; an exception is the
  value \<open>Inl e\<close>, and the state reached before the throw is returned with it. Calls into
  the MCP SDK whose effect the sources do not determine are parameters of the model. A
  handler runs without interruption up to an \<^verbatim>\<open>await\<close>; where it goes on after an \<^verbatim>\<open>await\<close>
  during which other exchanges can be handled, its two parts are separate functions.
\<close>

section \<open>JavaScript numbers\<close>

text \<open>
  A double: \<open>Num m e\<close> is the finite value \<open>m * 2 ^ e\<close>. A number that the schema
  \<^verbatim>\<open>z.number()\<close> of Zod 4 admits is finite; where a handler only counts up to such a
  number it is taken as the rational it denotes. Minus zero is not told apart from zero.
\<close>

datatype number = Num int int | Infinity | NegInfinity | NaN

definition num_value :: "int \<Rightarrow> int \<Rightarrow> rat" where
  "num_value m e = (if 0 \<le> e then of_int m * 2 ^ nat e else of_int m / 2 ^ nat (- e))"

text \<open>\<^verbatim>\<open>b !== 0\<close> is false for the two zeros only.\<close>

fun is_zero :: "number \<Rightarrow> bool" where
  "is_zero (Num m e) = (m = 0)"
| "is_zero _ = False"

text \<open>
  The double nearest to a natural number, as mantissa and exponent, \<open>None\<close> when it is
  infinite. Below \<open>2 ^ 53\<close> the number is a double. Otherwise the number has
  \<open>bit_length n\<close> binary digits, of which the leading 53 are kept (\<open>q\<close>); the part cut off
  (\<open>r\<close>) rounds \<open>q\<close> up when it is more than half a unit of \<open>q\<close>, or exactly half and \<open>q\<close>
  is odd. A result of \<open>2 ^ 1024\<close> or more is infinite.
\<close>

fun bit_length :: "nat \<Rightarrow> nat" where
  "bit_length n = (if n = 0 then 0 else Suc (bit_length (n div 2)))"

definition to_double :: "nat \<Rightarrow> (nat \<times> nat) option" where
  "to_double n =
     (if n < 2 ^ 53 then Some (n, 0)
      else
        let k = bit_length n - 53;
            q = n div 2 ^ k;
            r = n mod 2 ^ k;
            half = 2 ^ (k - 1);
            q' = (if half < r \<or> (r = half \<and> odd q) then q + 1 else q)
        in if 2 ^ 1024 \<le> q' * 2 ^ k then None else Some (q', k))"

text \<open>The number \<open>n\<close>, negated when \<open>negative\<close>, as the double nearest to it.\<close>

definition signed_double :: "bool \<Rightarrow> nat \<Rightarrow> number" where
  "signed_double negative n =
     (case to_double n of
        None \<Rightarrow> if negative then NegInfinity else Infinity
      | Some (m, e) \<Rightarrow> Num (if negative then - int m else int m) (int e))"

section \<open>The listen port (HTTP entry point, \<^verbatim>\<open>stdio.ts\<close> line 54)\<close>

text \<open>
  A JavaScript string is a list of UTF-16 code units. \<open>utf16\<close> writes an ASCII literal as
  such a list.
\<close>

definition utf16 :: "string \<Rightarrow> nat list" where
  "utf16 s = map of_char s"

text \<open>
  \<^verbatim>\<open>parseInt(string, 10)\<close> as ECMAScript defines it: leading white space (the code units of
  \<^verbatim>\<open>WhiteSpace\<close> and \<^verbatim>\<open>LineTerminator\<close>) is dropped, one sign is read, and the longest
  prefix of decimal digits is the number; with no digit the result is \<^verbatim>\<open>NaN\<close>. Whatever
  follows the digits is ignored. The result is the double nearest to the integer the
  digits denote, with the sign. (ECMAScript lets an engine read the digits after the
  twentieth as zeros; V8, the engine of Node, reads them all, and so does the model.)
\<close>

definition isWhiteSpace :: "nat \<Rightarrow> bool" where
  "isWhiteSpace c \<longleftrightarrow>
     c \<in> {9, 10, 11, 12, 13, 32, 160, 5760, 8232, 8233, 8239, 8287, 12288, 65279}
     \<or> (8192 \<le> c \<and> c \<le> 8202)"

definition isDigit :: "nat \<Rightarrow> bool" where
  "isDigit c \<longleftrightarrow> 48 \<le> c \<and> c \<le> 57"

definition digitsValue :: "nat list \<Rightarrow> nat" where
  "digitsValue ds = foldl (\<lambda>acc d. 10 * acc + (d - 48)) 0 ds"

definition parseInt10 :: "nat list \<Rightarrow> number" where
  "parseInt10 inputString =
     (let S = dropWhile isWhiteSpace inputString;
          negative = (S \<noteq> [] \<and> hd S = 45);
          S' = (if S \<noteq> [] \<and> (hd S = 43 \<or> hd S = 45) then tl S else S);
          Z = takeWhile isDigit S'
      in if Z = [] then NaN else signed_double negative (digitsValue Z))"

text \<open>
  \<^verbatim>\<open>const PORT = parseInt(process.env.PORT || '3000', 10)\<close>. The argument is the value of
  the environment variable, \<open>None\<close> when it is unset. \<^verbatim>\<open>||\<close> takes its right operand when
  the left one is falsy: \<^verbatim>\<open>undefined\<close> or the empty string.
\<close>

definition PORT :: "nat list option \<Rightarrow> number" where
  "PORT env_PORT =
     parseInt10 (case env_PORT of
                   None \<Rightarrow> utf16 ''3000''
                 | Some v \<Rightarrow> if v = [] then utf16 ''3000'' else v)"

section \<open>The SDK's \<^verbatim>\<open>McpServer\<close> and the module state of \<^verbatim>\<open>tools.ts\<close>\<close>

text \<open>
  An \<^verbatim>\<open>McpServer\<close> is the registry the sources fill: the names of its tools, the URIs of
  its static resources, the names of its resource templates and the names of its prompts,
  in registration order. The handler registered under a name is the one the sources give
  with it, so a name stands for its handler.
\<close>

record mcp_server =
  tools :: "string list"
  resources :: "string list"
  resourceTemplates :: "string list"
  prompts :: "string list"

definition new_McpServer :: mcp_server where
  "new_McpServer = \<lparr>tools = [], resources = [], resourceTemplates = [], prompts = []\<rparr>"

datatype error =
    AlreadyRegistered string
  | ToolNotFound string

text \<open>
  A notification handed to \<^verbatim>\<open>extra.sendNotification\<close>. \<open>Progress tok i n\<close> is
  \<^verbatim>\<open>{method: 'notifications/progress', params: {progressToken: tok, progress: i / n, total: 1.0}}\<close>:
  the quotient is kept as its numerator \<open>i\<close> and its denominator \<open>n\<close>.
\<close>

datatype notification =
    Progress string nat rat
  | ToolsListChanged

text \<open>
  \<open>bonusToolLoaded\<close> is the module variable of \<^verbatim>\<open>tools.ts\<close> (line 32). \<open>servers\<close> holds
  the \<^verbatim>\<open>McpServer\<close> objects by reference; the references below \<open>n_servers\<close> are
  allocated. \<open>sent\<close> lists the notifications handed to \<^verbatim>\<open>sendNotification\<close> so far, in
  order, each with the reference of the server whose handler sent it.
\<close>

record tools_state =
  bonusToolLoaded :: bool
  servers :: "nat \<Rightarrow> mcp_server"
  n_servers :: nat
  sent :: "(nat \<times> notification) list"

definition startup :: tools_state where
  "startup = \<lparr>bonusToolLoaded = False, servers = (\<lambda>_. new_McpServer), n_servers = 0, sent = []\<rparr>"

text \<open>
  \<^verbatim>\<open>await extra.sendNotification(n)\<close> in a handler of server \<open>sid\<close>: the notification is
  handed to the transport and the promise resolves.
\<close>

definition sendNotification :: "nat \<Rightarrow> notification \<Rightarrow> tools_state \<Rightarrow> tools_state" where
  "sendNotification sid n st = st\<lparr>sent := sent st @ [(sid, n)]\<rparr>"

text \<open>
  \<^verbatim>\<open>server.tool(name, ...)\<close>, \<^verbatim>\<open>server.resource(name, uri, ...)\<close>,
  \<^verbatim>\<open>server.resource(name, new ResourceTemplate(...), ...)\<close> and \<^verbatim>\<open>server.prompt(name, ...)\<close>
  of the SDK: each throws when the name (for a static resource, the URI) is registered
  already on that server, and adds it otherwise.
\<close>

definition server_tool :: "nat \<Rightarrow> string \<Rightarrow> tools_state \<Rightarrow> (error + unit) \<times> tools_state" where
  "server_tool sid name st =
     (let srv = servers st sid in
      if name \<in> set (tools srv) then (Inl (AlreadyRegistered name), st)
      else (Inr (), st\<lparr>servers := (servers st)(sid := srv\<lparr>tools := tools srv @ [name]\<rparr>)\<rparr>))"

definition server_resource :: "nat \<Rightarrow> string \<Rightarrow> tools_state \<Rightarrow> (error + unit) \<times> tools_state" where
  "server_resource sid uri st =
     (let srv = servers st sid in
      if uri \<in> set (resources srv) then (Inl (AlreadyRegistered uri), st)
      else (Inr (), st\<lparr>servers := (servers st)(sid := srv\<lparr>resources := resources srv @ [uri]\<rparr>)\<rparr>))"

definition server_resource_template ::
    "nat \<Rightarrow> string \<Rightarrow> tools_state \<Rightarrow> (error + unit) \<times> tools_state" where
  "server_resource_template sid name st =
     (let srv = servers st sid in
      if name \<in> set (resourceTemplates srv) then (Inl (AlreadyRegistered name), st)
      else (Inr (), st\<lparr>servers := (servers st)(sid :=
              srv\<lparr>resourceTemplates := resourceTemplates srv @ [name]\<rparr>)\<rparr>))"

definition server_prompt :: "nat \<Rightarrow> string \<Rightarrow> tools_state \<Rightarrow> (error + unit) \<times> tools_state" where
  "server_prompt sid name st =
     (let srv = servers st sid in
      if name \<in> set (prompts srv) then (Inl (AlreadyRegistered name), st)
      else (Inr (), st\<lparr>servers := (servers st)(sid := srv\<lparr>prompts := prompts srv @ [name]\<rparr>)\<rparr>))"

text \<open>Statements in sequence: the first throw ends the run.\<close>

fun in_sequence :: "('s \<Rightarrow> (error + unit) \<times> 's) list \<Rightarrow> 's \<Rightarrow> (error + unit) \<times> 's" where
  "in_sequence [] s = (Inr (), s)"
| "in_sequence (f # fs) s =
     (case f s of (Inl e, s') \<Rightarrow> (Inl e, s') | (Inr _, s') \<Rightarrow> in_sequence fs s')"

section \<open>Registration (\<^verbatim>\<open>tools.ts\<close>, \<^verbatim>\<open>resources.ts\<close>) and the server factory (\<^verbatim>\<open>server.ts\<close>)\<close>

definition registerHelloTool :: "nat \<Rightarrow> tools_state \<Rightarrow> (error + unit) \<times> tools_state" where
  "registerHelloTool sid = server_tool sid ''hello''"

definition registerWeatherTool :: "nat \<Rightarrow> tools_state \<Rightarrow> (error + unit) \<times> tools_state" where
  "registerWeatherTool sid = server_tool sid ''get_weather''"

definition registerAskLlmTool :: "nat \<Rightarrow> tools_state \<Rightarrow> (error + unit) \<times> tools_state" where
  "registerAskLlmTool sid = server_tool sid ''ask_llm''"

definition registerLongTaskTool :: "nat \<Rightarrow> tools_state \<Rightarrow> (error + unit) \<times> tools_state" where
  "registerLongTaskTool sid = server_tool sid ''long_task''"

definition registerLoadBonusTool :: "nat \<Rightarrow> tools_state \<Rightarrow> (error + unit) \<times> tools_state" where
  "registerLoadBonusTool sid = server_tool sid ''load_bonus_tool''"

definition registerConfirmActionTool :: "nat \<Rightarrow> tools_state \<Rightarrow> (error + unit) \<times> tools_state" where
  "registerConfirmActionTool sid = server_tool sid ''confirm_action''"

definition registerGetFeedbackTool :: "nat \<Rightarrow> tools_state \<Rightarrow> (error + unit) \<times> tools_state" where
  "registerGetFeedbackTool sid = server_tool sid ''get_feedback''"

text \<open>\<^verbatim>\<open>registerTools\<close> (lines 37 to 45). It does not read \<^verbatim>\<open>bonusToolLoaded\<close>.\<close>

definition registerTools :: "nat \<Rightarrow> tools_state \<Rightarrow> (error + unit) \<times> tools_state" where
  "registerTools sid =
     in_sequence
       [registerHelloTool sid, registerWeatherTool sid, registerAskLlmTool sid,
        registerLongTaskTool sid, registerLoadBonusTool sid, registerConfirmActionTool sid,
        registerGetFeedbackTool sid]"

definition registerResources :: "nat \<Rightarrow> tools_state \<Rightarrow> (error + unit) \<times> tools_state" where
  "registerResources sid =
     in_sequence
       [server_resource sid ''info://about'',
        server_resource_template sid ''Personalized Greeting'',
        server_resource_template sid ''Item Data'']"

definition registerPrompts :: "nat \<Rightarrow> tools_state \<Rightarrow> (error + unit) \<times> tools_state" where
  "registerPrompts sid =
     in_sequence [server_prompt sid ''greet'', server_prompt sid ''code_review'']"

text \<open>The registry that the three registrations build on a new server.\<close>

definition created_server :: mcp_server where
  "created_server =
     \<lparr>tools = [''hello'', ''get_weather'', ''ask_llm'', ''long_task'', ''load_bonus_tool'',
               ''confirm_action'', ''get_feedback''],
      resources = [''info://about''],
      resourceTemplates = [''Personalized Greeting'', ''Item Data''],
      prompts = [''greet'', ''code_review'']\<rparr>"

text \<open>
  \<^verbatim>\<open>createServer\<close> (\<^verbatim>\<open>server.ts\<close>, lines 71 to 92): a new \<^verbatim>\<open>McpServer\<close> object, then the
  three registrations. The result is the reference of the new object.
\<close>

definition createServer :: "tools_state \<Rightarrow> (error + nat) \<times> tools_state" where
  "createServer st =
     (let sid = n_servers st;
          st0 = st\<lparr>servers := (servers st)(sid := new_McpServer), n_servers := Suc sid\<rparr>
      in case in_sequence [registerTools sid, registerResources sid, registerPrompts sid] st0 of
           (Inl e, st') \<Rightarrow> (Inl e, st')
         | (Inr _, st') \<Rightarrow> (Inr sid, st'))"

section \<open>The tool handlers (\<^verbatim>\<open>tools.ts\<close>)\<close>

text \<open>
  The text of a response is a template literal: its pieces in order, a number standing
  where the literal interpolates one.
\<close>

datatype frag = Str string | Rat rat | Dbl number

datatype tool_result = Content "frag list" | ErrorContent "frag list"

datatype calc_op = Add | Subtract | Multiply | Divide

fun op_name :: "calc_op \<Rightarrow> string" where
  "op_name Add = ''add''"
| "op_name Subtract = ''subtract''"
| "op_name Multiply = ''multiply''"
| "op_name Divide = ''divide''"

text \<open>A \<^verbatim>\<open>tools/call\<close> request after the SDK has validated its arguments.\<close>

datatype tool_call =
    Hello string
  | GetWeather string
  | AskLlm string "rat option"
  | LongTask string "rat option"
  | LoadBonusTool
  | ConfirmAction string "bool option"
  | GetFeedback string
  | BonusCalculator number number calc_op

fun tool_name :: "tool_call \<Rightarrow> string" where
  "tool_name (Hello _) = ''hello''"
| "tool_name (GetWeather _) = ''get_weather''"
| "tool_name (AskLlm _ _) = ''ask_llm''"
| "tool_name (LongTask _ _) = ''long_task''"
| "tool_name LoadBonusTool = ''load_bonus_tool''"
| "tool_name (ConfirmAction _ _) = ''confirm_action''"
| "tool_name (GetFeedback _) = ''get_feedback''"
| "tool_name (BonusCalculator _ _ _) = ''bonus_calculator''"

text \<open>
  What the sources leave to the platform: the four operators of double arithmetic, and
  the responses of the handlers \<^verbatim>\<open>get_weather\<close> (\<^verbatim>\<open>Math.random\<close>), \<^verbatim>\<open>ask_llm\<close>,
  \<^verbatim>\<open>confirm_action\<close> and \<^verbatim>\<open>get_feedback\<close> (a round trip to the client). The bodies of these
  four handlers assign no module variable, register nothing and send no notification.
\<close>

record platform =
  fl_add :: "number \<Rightarrow> number \<Rightarrow> number"
  fl_sub :: "number \<Rightarrow> number \<Rightarrow> number"
  fl_mul :: "number \<Rightarrow> number \<Rightarrow> number"
  fl_div :: "number \<Rightarrow> number \<Rightarrow> number"
  client_result :: "tool_call \<Rightarrow> tool_result"

definition hello_handler :: "string \<Rightarrow> tool_result" where
  "hello_handler name = Content [Str (''Hello, '' @ name @ ''! Welcome to MCP.'')]"

text \<open>
  The loop of \<^verbatim>\<open>long_task\<close> (lines 173 to 183). The one-second pause after each
  notification is not modelled.
\<close>

function long_task_loop :: "nat \<Rightarrow> rat \<Rightarrow> nat \<Rightarrow> tools_state \<Rightarrow> tools_state" where
  "long_task_loop sid numSteps i st =
     (if of_nat i < numSteps
      then long_task_loop sid numSteps (Suc i)
             (sendNotification sid (Progress ''long_task'' i numSteps) st)
      else st)"
  by pat_completeness auto
termination
proof (relation "measure (\<lambda>(sid, numSteps, i, st). nat \<lceil>numSteps\<rceil> - i)")
  show "wf (measure (\<lambda>(sid, numSteps, i, st). nat \<lceil>numSteps\<rceil> - i))"
    by simp
next
  fix sid :: nat and numSteps :: rat and i :: nat and st :: tools_state
  assume "of_nat i < numSteps"
  then have "of_nat i < (of_int \<lceil>numSteps\<rceil> :: rat)"
    by (rule less_le_trans) simp
  then have "int i < \<lceil>numSteps\<rceil>"
    by (metis of_int_less_iff of_int_of_nat_eq)
  then show "((sid, numSteps, Suc i, sendNotification sid (Progress ''long_task'' i numSteps) st),
              (sid, numSteps, i, st))
      \<in> measure (\<lambda>(sid, numSteps, i, st). nat \<lceil>numSteps\<rceil> - i)"
    by simp
qed

text \<open>
  The handler of \<^verbatim>\<open>long_task\<close> (lines 170 to 193); \<open>steps\<close> is absent or a number. It
  returns its response after the loop, with the state the loop has left.
\<close>

definition completed :: "string \<Rightarrow> rat \<Rightarrow> tool_result" where
  "completed taskName numSteps =
     Content [Str ''Task '', Str [CHR 0x22], Str taskName, Str [CHR 0x22],
              Str '' completed successfully after '', Rat numSteps, Str '' steps!'']"

definition long_task_handler ::
    "nat \<Rightarrow> string \<Rightarrow> rat option \<Rightarrow> tools_state \<Rightarrow> tool_result \<times> tools_state" where
  "long_task_handler sid taskName steps st =
     (let numSteps = (case steps of None \<Rightarrow> 5 | Some s \<Rightarrow> s) in
      (completed taskName numSteps, long_task_loop sid numSteps 0 st))"

text \<open>
  The handler of \<^verbatim>\<open>load_bonus_tool\<close> (lines 212 to 268), registered on server \<open>sid\<close>: the
  closure registers \<^verbatim>\<open>bonus_calculator\<close> on that same server. The flag is assigned
  before the notification is awaited. \<open>already_loaded\<close> and \<open>now_loaded\<close> are its two
  responses.
\<close>

definition already_loaded :: tool_result where
  "already_loaded =
     Content [Str ''Bonus tool is already loaded! Try calling 'bonus_calculator'.'']"

definition now_loaded :: tool_result where
  "now_loaded =
     Content [Str ''Bonus tool 'bonus_calculator' has been loaded! The tools list has been updated.'']"

definition load_bonus_tool_handler ::
    "nat \<Rightarrow> tools_state \<Rightarrow> (error + tool_result) \<times> tools_state" where
  "load_bonus_tool_handler sid st =
     (if bonusToolLoaded st then (Inr already_loaded, st)
      else
        case server_tool sid ''bonus_calculator'' st of
          (Inl e, st1) \<Rightarrow> (Inl e, st1)
        | (Inr _, st1) \<Rightarrow>
            (Inr now_loaded, sendNotification sid ToolsListChanged (st1\<lparr>bonusToolLoaded := True\<rparr>)))"

text \<open>
  The handler of \<^verbatim>\<open>bonus_calculator\<close> (lines 239 to 249): the four results are computed,
  the quotient only when \<^verbatim>\<open>b !== 0\<close>, and the one of the operation is shown.
\<close>

definition bonus_calculator_handler ::
    "platform \<Rightarrow> number \<Rightarrow> number \<Rightarrow> calc_op \<Rightarrow> tool_result" where
  "bonus_calculator_handler p a b operation =
     (let ops = [(Add, fl_add p a b), (Subtract, fl_sub p a b), (Multiply, fl_mul p a b),
                 (Divide, if \<not> is_zero b then fl_div p a b else NaN)]
      in Content [Dbl a, Str '' '', Str (op_name operation), Str '' '', Dbl b, Str '' = '',
                  (case map_of ops operation of Some r \<Rightarrow> Dbl r | None \<Rightarrow> Str ''undefined'')])"

text \<open>
  A \<^verbatim>\<open>tools/call\<close> on server \<open>sid\<close>: the SDK answers an unregistered name with an error and
  runs the handler registered under the name otherwise.
\<close>

definition call_tool ::
    "platform \<Rightarrow> nat \<Rightarrow> tool_call \<Rightarrow> tools_state \<Rightarrow> (error + tool_result) \<times> tools_state" where
  "call_tool p sid c st =
     (if tool_name c \<notin> set (tools (servers st sid)) then (Inl (ToolNotFound (tool_name c)), st)
      else case c of
        Hello name \<Rightarrow> (Inr (hello_handler name), st)
      | LongTask taskName steps \<Rightarrow>
          (case long_task_handler sid taskName steps st of (res, st') \<Rightarrow> (Inr res, st'))
      | LoadBonusTool \<Rightarrow> load_bonus_tool_handler sid st
      | BonusCalculator a b operation \<Rightarrow> (Inr (bonus_calculator_handler p a b operation), st)
      | _ \<Rightarrow> (Inr (client_result p c), st))"

text \<open>
  The operations that can reach the module variable: it is not exported, so these are the
  factory and the calls of the tools of \<^verbatim>\<open>tools.ts\<close>, on any server. An invocation has
  completed when its result is \<open>Inr\<close> of a response.
\<close>

datatype operation = CreateServer | CallTool nat tool_call

fun step :: "platform \<Rightarrow> operation \<Rightarrow> tools_state \<Rightarrow> tools_state" where
  "step p CreateServer st = snd (createServer st)"
| "step p (CallTool sid c) st = snd (call_tool p sid c st)"

definition run :: "platform \<Rightarrow> operation list \<Rightarrow> tools_state \<Rightarrow> tools_state" where
  "run p ops st = foldl (\<lambda>s op. step p op s) st ops"

section \<open>The greet prompt (\<^verbatim>\<open>registerGreetPrompt\<close>, \<^verbatim>\<open>resources.ts\<close> lines 125 to 147)\<close>

text \<open>
  The values a property read of the object literal \<^verbatim>\<open>styles\<close> can give. The literal's
  prototype is \<^verbatim>\<open>Object.prototype\<close>, so a key that is not an own property is looked up
  there: its methods are functions, and \<^verbatim>\<open>__proto__\<close> reads the prototype object itself.
\<close>

datatype jsval = JString string | JFunction string | JObject string | JUndefined

definition object_prototype :: "string \<Rightarrow> jsval" where
  "object_prototype k =
     (if k \<in> set [''constructor'', ''hasOwnProperty'', ''isPrototypeOf'',
                   ''propertyIsEnumerable'', ''toLocaleString'', ''toString'', ''valueOf'',
                   ''__defineGetter__'', ''__defineSetter__'', ''__lookupGetter__'',
                   ''__lookupSetter__'']
      then JFunction k
      else if k = ''__proto__'' then JObject ''Object.prototype''
      else JUndefined)"

definition get_property :: "(string \<times> jsval) list \<Rightarrow> string \<Rightarrow> jsval" where
  "get_property obj k = (case map_of obj k of Some v \<Rightarrow> v | None \<Rightarrow> object_prototype k)"

fun truthy :: "jsval \<Rightarrow> bool" where
  "truthy (JString s) = (s \<noteq> [])"
| "truthy (JFunction _) = True"
| "truthy (JObject _) = True"
| "truthy JUndefined = False"

text \<open>
  The handler of the prompt (lines 133 to 145); \<open>style\<close> is
  \<open>None\<close> when the argument is absent. The result is the \<^verbatim>\<open>text\<close> of the one message
  returned: \<^verbatim>\<open>styles[style || 'casual'] || styles.casual\<close>.
\<close>

definition greet_handler :: "string \<Rightarrow> string option \<Rightarrow> jsval" where
  "greet_handler name style =
     (let styles =
            [(''formal'',
                JString (''Please compose a formal, professional greeting for '' @ name @ ''.'')),
             (''casual'', JString (''Write a casual, friendly hello to '' @ name @ ''.'')),
             (''enthusiastic'',
                JString (''Create an excited, enthusiastic greeting for '' @ name @ ''!''))];
          key = (case style of None \<Rightarrow> ''casual'' | Some s \<Rightarrow> if s = [] then ''casual'' else s);
          v = get_property styles key
      in if truthy v then v else get_property styles ''casual'')"

section \<open>The session manager (HTTP entry point, the handler of \<^verbatim>\<open>/mcp\<close>, \<^verbatim>\<open>stdio.ts\<close> lines 68 to 132)\<close>

text \<open>
  A \<^verbatim>\<open>StreamableHTTPServerTransport\<close> object, as far as the handler reads and writes it:
  its \<^verbatim>\<open>sessionId\<close> (\<open>None\<close> for \<^verbatim>\<open>undefined\<close>), whether the handler's \<^verbatim>\<open>onclose\<close> closure is
  installed (line 97), the server connected to it (line 105) and whether it was closed.
\<close>

record transport =
  sessionId :: "string option"
  onclose_installed :: bool
  connected :: "nat option"
  was_closed :: bool

text \<open>
  An exchange: the verb, the header \<^verbatim>\<open>mcp-session-id\<close> (\<open>None\<close> when absent) and the body.
\<close>

record request =
  verb :: string
  mcp_session_id :: "string option"
  payload :: string

text \<open>
  A response: the status and the JSON body, \<^verbatim>\<open>{error: msg}\<close> or \<^verbatim>\<open>{message: msg}\<close> when the
  handler writes it, anything when the SDK does.
\<close>

datatype body = ErrorBody string | MessageBody string | SdkBody string

record response =
  status :: nat
  json :: body

text \<open>
  The state of the process: the map \<^verbatim>\<open>transports\<close> of \<^verbatim>\<open>main\<close> (line 63) from session
  ids to transport objects, the transport objects by reference (those below \<open>n_objs\<close>
  are allocated), and the module state of \<^verbatim>\<open>tools.ts\<close> with the servers.
\<close>

record http_state =
  transports :: "string \<rightharpoonup> nat"
  objs :: "nat \<Rightarrow> transport"
  n_objs :: nat
  modules :: tools_state

definition http_startup :: http_state where
  "http_startup =
     \<lparr>transports = Map.empty,
      objs = (\<lambda>_. \<lparr>sessionId = None, onclose_installed = False, connected = None,
                    was_closed = False\<rparr>),
      n_objs = 0, modules = startup\<rparr>"

text \<open>
  What one run of the handler did, in program order: the calls it made and its writes to
  the map. \<open>EvHandleRequest t\<close> is the call \<^verbatim>\<open>transport.handleRequest(req, res, req.body)\<close>
  on transport \<open>t\<close>, the only place where the response object \<^verbatim>\<open>res\<close> of a GET or POST
  exchange is handed on; \<open>EvRespond c\<close> is a response the handler writes itself.
\<close>

datatype event =
    EvCreateServer nat
  | EvConnect nat nat
  | EvHandleRequest nat
  | EvSet string nat
  | EvDelete string
  | EvClose nat
  | EvRespond nat

datatype outcome = Responded response | Thrown error

text \<open>
  \<^verbatim>\<open>transport.handleRequest\<close> belongs to the SDK. It is a parameter: from the transport
  object, the request and the module state it gives the response and the new transport
  object and module state (it runs the handlers of the connected server). It cannot
  reach the map \<^verbatim>\<open>transports\<close>, a local variable of \<^verbatim>\<open>main\<close>.
\<close>

type_synonym sdk = "transport \<Rightarrow> request \<Rightarrow> tools_state \<Rightarrow> response \<times> transport \<times> tools_state"

definition handleRequest :: "sdk \<Rightarrow> nat \<Rightarrow> request \<Rightarrow> http_state \<Rightarrow> response \<times> http_state" where
  "handleRequest hr t req st =
     (case hr (objs st t) req (modules st) of
        (resp, t', m') \<Rightarrow> (resp, st\<lparr>objs := (objs st)(t := t'), modules := m'\<rparr>))"

text \<open>The closure assigned to \<^verbatim>\<open>transport.onclose\<close> (lines 97 to 103).\<close>

definition onclose :: "nat \<Rightarrow> http_state \<Rightarrow> event list \<times> http_state" where
  "onclose t st =
     (case sessionId (objs st t) of
        None \<Rightarrow> ([], st)
      | Some i \<Rightarrow>
          if i = [] then ([], st)
          else ([EvDelete i], st\<lparr>transports := (transports st)(i := None)\<rparr>))"

text \<open>\<^verbatim>\<open>transport.close()\<close> of the SDK: the transport is closed and its \<^verbatim>\<open>onclose\<close> is called.\<close>

definition transport_close :: "nat \<Rightarrow> http_state \<Rightarrow> event list \<times> http_state" where
  "transport_close t st =
     (let st1 = st\<lparr>objs := (objs st)(t := (objs st t)\<lparr>was_closed := True\<rparr>)\<rparr> in
      if onclose_installed (objs st1 t)
      then (case onclose t st1 of (evs, st2) \<Rightarrow> (EvClose t # evs, st2))
      else ([EvClose t], st1))"

text \<open>
  \<^verbatim>\<open>sessionId && transports.has(sessionId)\<close> followed by \<^verbatim>\<open>transports.get(sessionId)!\<close>:
  a header that is present, not empty and a key of the map, with its transport.
\<close>

definition lookup_session :: "http_state \<Rightarrow> string option \<Rightarrow> (string \<times> nat) option" where
  "lookup_session st hdr =
     (case hdr of
        None \<Rightarrow> None
      | Some s \<Rightarrow>
          if s = [] then None
          else (case transports st s of None \<Rightarrow> None | Some t \<Rightarrow> Some (s, t)))"

text \<open>
  Lines 91 to 105: a new server from the factory, a new transport object with the
  \<^verbatim>\<open>onclose\<close> closure, and \<^verbatim>\<open>server.connect(transport)\<close>.
\<close>

definition new_session :: "http_state \<Rightarrow> (error + nat) \<times> event list \<times> http_state" where
  "new_session st =
     (case createServer (modules st) of
        (Inl e, m') \<Rightarrow> (Inl e, [], st\<lparr>modules := m'\<rparr>)
      | (Inr srv, m') \<Rightarrow>
          (let t = n_objs st in
           (Inr t, [EvCreateServer srv, EvConnect srv t],
            st\<lparr>modules := m', n_objs := Suc t,
               objs := (objs st)(t := \<lparr>sessionId = None, onclose_installed = True,
                                       connected = Some srv, was_closed = False\<rparr>)\<rparr>)))"

text \<open>
  The POST branch up to the end of \<^verbatim>\<open>await transport.handleRequest(req, res, req.body)\<close>
  (lines 84 to 108): the transport of the session is looked up or a new one is made, and
  the request is handed to it. The result names the transport with which the handler goes
  on after the \<^verbatim>\<open>await\<close>, \<open>None\<close> when it has thrown. (The \<^verbatim>\<open>await\<close> of \<^verbatim>\<open>connect\<close> on line 105
  is not a step of its own: nothing the handler reads afterwards can change in it.)
\<close>

definition post_dispatch ::
    "sdk \<Rightarrow> request \<Rightarrow> http_state \<Rightarrow> outcome \<times> event list \<times> nat option \<times> http_state" where
  "post_dispatch hr req st =
     (case lookup_session st (mcp_session_id req) of
        Some (s, t) \<Rightarrow>
          (case handleRequest hr t req st of
             (resp, st1) \<Rightarrow> (Responded resp, [EvHandleRequest t], Some t, st1))
      | None \<Rightarrow>
          (case new_session st of
             (Inl e, evs, st1) \<Rightarrow> (Thrown e, evs, None, st1)
           | (Inr t, evs, st1) \<Rightarrow>
               (case handleRequest hr t req st1 of
                  (resp, st2) \<Rightarrow> (Responded resp, evs @ [EvHandleRequest t], Some t, st2))))"

text \<open>
  The POST branch after the \<^verbatim>\<open>await\<close> (lines 110 to 115), in the state in which the handler
  is resumed: the transport is stored under its session id when it has one that is not a
  key of the map. This part runs for the transport of an existing session as well as
  for a new one.
\<close>

definition post_store :: "nat \<Rightarrow> http_state \<Rightarrow> event list \<times> http_state" where
  "post_store t st =
     (case sessionId (objs st t) of
        None \<Rightarrow> ([], st)
      | Some i \<Rightarrow>
          if i \<noteq> [] \<and> transports st i = None
          then ([EvSet i t], st\<lparr>transports := (transports st)(i \<mapsto> t)\<rparr>)
          else ([], st))"

text \<open>
  The handler of \<^verbatim>\<open>app.all('/mcp', ...)\<close> (lines 68 to 132): the GET branch, the POST
  branch, the DELETE branch and the answer to every other verb. This is a run of the
  handler during which no other exchange is handled: in the POST branch \<open>post_store\<close>
  follows \<open>post_dispatch\<close> at once. A state in which other exchanges have been handled
  during the \<^verbatim>\<open>await\<close> is reached by running them between the two parts.
\<close>

definition mcp_endpoint :: "sdk \<Rightarrow> request \<Rightarrow> http_state \<Rightarrow> outcome \<times> event list \<times> http_state" where
  "mcp_endpoint hr req st =
     (if verb req = ''GET'' then
        (case lookup_session st (mcp_session_id req) of
           None \<Rightarrow>
             (Responded \<lparr>status = 400, json = ErrorBody ''Invalid or missing session ID''\<rparr>,
              [EvRespond 400], st)
         | Some (s, t) \<Rightarrow>
             (case handleRequest hr t req st of
                (resp, st1) \<Rightarrow> (Responded resp, [EvHandleRequest t], st1)))
      else if verb req = ''POST'' then
        (case post_dispatch hr req st of
           (out, evs, None, st1) \<Rightarrow> (out, evs, st1)
         | (out, evs, Some t, st1) \<Rightarrow>
             (case post_store t st1 of (evs2, st2) \<Rightarrow> (out, evs @ evs2, st2)))
      else if verb req = ''DELETE'' then
        (case lookup_session st (mcp_session_id req) of
           Some (s, t) \<Rightarrow>
             (case transport_close t st of
                (evs, st1) \<Rightarrow>
                  (Responded \<lparr>status = 200, json = MessageBody ''Session closed''\<rparr>,
                   evs @ [EvDelete s, EvRespond 200],
                   st1\<lparr>transports := (transports st1)(s := None)\<rparr>))
         | None \<Rightarrow>
             (Responded \<lparr>status = 404, json = ErrorBody ''Session not found''\<rparr>,
              [EvRespond 404], st))
      else
        (Responded \<lparr>status = 405, json = ErrorBody ''Method not allowed''\<rparr>,
         [EvRespond 405], st))"

text \<open>The status of an outcome; a thrown error has none.\<close>

fun status_of :: "outcome \<Rightarrow> nat option" where
  "status_of (Responded r) = Some (status r)"
| "status_of (Thrown _) = None"

text \<open>
  \<open>occurs_before a b evs\<close>: event \<open>a\<close> occurs in the run \<open>evs\<close>, and earlier than any \<open>b\<close>.
\<close>

definition occurs_before :: "event \<Rightarrow> event \<Rightarrow> event list \<Rightarrow> bool" where
  "occurs_before a b evs \<longleftrightarrow>
     a \<in> set evs \<and> length (takeWhile (\<lambda>x. x \<noteq> a) evs) < length (takeWhile (\<lambda>x. x \<noteq> b) evs)"

section \<open>Concrete platforms, requests and states\<close>

text \<open>A platform for the examples; none of them computes with its operators.\<close>

definition plain_platform :: platform where
  "plain_platform =
     \<lparr>fl_add = (\<lambda>_ _. NaN), fl_sub = (\<lambda>_ _. NaN), fl_mul = (\<lambda>_ _. NaN),
      fl_div = (\<lambda>_ _. NaN), client_result = (\<lambda>_. Content [])\<rparr>"

text \<open>
  An SDK that answers every request of a transport without a session id as an
  initialization, giving it the id \<open>sid\<close>, and leaves other transports as they are.
\<close>

definition initializing :: "string \<Rightarrow> sdk" where
  "initializing sid t req m =
     (\<lparr>status = 200, json = SdkBody []\<rparr>,
      (case sessionId t of None \<Rightarrow> t\<lparr>sessionId := Some sid\<rparr> | Some _ \<Rightarrow> t), m)"

definition exchange :: "string \<Rightarrow> string option \<Rightarrow> request" where
  "exchange v hdr = \<lparr>verb = v, mcp_session_id = hdr, payload = []\<rparr>"

text \<open>
  The state after the factory has run once in a new process; and the state of a process
  in which a first server was made and loaded the bonus tool, and then a second server
  was made (as for a second session).
\<close>

definition first_server :: tools_state where
  "first_server = snd (createServer startup)"

definition second_server :: tools_state where
  "second_server = run plain_platform [CreateServer, CallTool 0 LoadBonusTool, CreateServer] startup"

text \<open>
  While the flag is false no server has \<^verbatim>\<open>bonus_calculator\<close>: an invariant of the
  operations.
\<close>

definition unloaded_ok :: "tools_state \<Rightarrow> bool" where
  "unloaded_ok st \<longleftrightarrow>
     bonusToolLoaded st \<or> (\<forall>sid. ''bonus_calculator'' \<notin> set (tools (servers st sid)))"

text \<open>
  An operation that is an invocation of \<^verbatim>\<open>load_bonus_tool\<close> and completes in the given
  state: it returns a response.
\<close>

fun completes_load_bonus :: "platform \<Rightarrow> operation \<Rightarrow> tools_state \<Rightarrow> bool" where
  "completes_load_bonus p (CallTool sid LoadBonusTool) st =
     (case fst (call_tool p sid LoadBonusTool st) of Inr _ \<Rightarrow> True | Inl _ \<Rightarrow> False)"
| "completes_load_bonus p _ st = False"

text \<open>
  A session token that is missing or is not a key of the table; the SDK that is shown the
  header \<open>t\<close> whatever the request carries; and the state of a process after its first
  POST, answered by an SDK that assigned the session id \<^verbatim>\<open>s1\<close>.
\<close>

definition missing_or_unknown :: "http_state \<Rightarrow> string option \<Rightarrow> bool" where
  "missing_or_unknown st hdr = (case hdr of None \<Rightarrow> True | Some s \<Rightarrow> transports st s = None)"

definition seen_as :: "string \<Rightarrow> sdk \<Rightarrow> sdk" where
  "seen_as t hr tr req = hr tr (req\<lparr>mcp_session_id := Some t\<rparr>)"

definition session_open :: http_state where
  "session_open = snd (snd (mcp_endpoint (initializing ''s1'') (exchange ''POST'' None) http_startup))"

text \<open>
  With the session \<^verbatim>\<open>s1\<close> open: the state while a POST carrying \<^verbatim>\<open>s1\<close> awaits its
  transport; the state after a DELETE carrying \<^verbatim>\<open>s1\<close> was handled during that \<^verbatim>\<open>await\<close>;
  and the state after the POST has been resumed.
\<close>

definition post_awaiting :: http_state where
  "post_awaiting =
     snd (snd (snd (post_dispatch (initializing ''s1'') (exchange ''POST'' (Some ''s1'')) session_open)))"

definition deleted_meanwhile :: http_state where
  "deleted_meanwhile =
     snd (snd (mcp_endpoint (initializing ''s1'') (exchange ''DELETE'' (Some ''s1'')) post_awaiting))"

definition post_resumed :: http_state where
  "post_resumed = snd (post_store 0 deleted_meanwhile)"

text \<open>
  The casual message of the greet prompt for a name, and the own keys of \<^verbatim>\<open>styles\<close>.
\<close>

definition casual_message :: "string \<Rightarrow> jsval" where
  "casual_message name = JString (''Write a casual, friendly hello to '' @ name @ ''.'')"

definition own_style :: "string \<Rightarrow> bool" where
  "own_style s \<longleftrightarrow> s \<in> {''formal'', ''casual'', ''enthusiastic''}"

text \<open>
  \<^verbatim>\<open>ops[operation]\<close> of the calculator, operation by operation; and the exact result of an
  operation on two rationals, as arithmetic defines it.
\<close>

definition shown_result :: "platform \<Rightarrow> number \<Rightarrow> number \<Rightarrow> calc_op \<Rightarrow> number" where
  "shown_result p a b operation =
     (case operation of
        Add \<Rightarrow> fl_add p a b
      | Subtract \<Rightarrow> fl_sub p a b
      | Multiply \<Rightarrow> fl_mul p a b
      | Divide \<Rightarrow> if is_zero b then NaN else fl_div p a b)"

definition exact_result :: "calc_op \<Rightarrow> rat \<Rightarrow> rat \<Rightarrow> rat" where
  "exact_result operation x y =
     (case operation of Add \<Rightarrow> x + y | Subtract \<Rightarrow> x - y | Multiply \<Rightarrow> x * y | Divide \<Rightarrow> x / y)"

chapter \<open>Properties\<close>

section \<open>The listen port\<close>

declare bit_length.simps [simp del]

lemma dropWhile_white:
  "list_all isWhiteSpace ws \<Longrightarrow> dropWhile isWhiteSpace (ws @ xs) = dropWhile isWhiteSpace xs"
  by (induction ws) auto

lemma takeWhile_digits:
  "list_all isDigit ds \<Longrightarrow> rest = [] \<or> \<not> isDigit (hd rest) \<Longrightarrow> takeWhile isDigit (ds @ rest) = ds"
proof -
  assume r: "rest = [] \<or> \<not> isDigit (hd rest)" and d: "list_all isDigit ds"
  from r have "takeWhile isDigit rest = []" by (cases rest) auto
  with d show ?thesis by (induction ds) auto
qed

lemma digit_not_white: "isDigit c \<Longrightarrow> \<not> isWhiteSpace c \<and> c \<noteq> 43 \<and> c \<noteq> 45"
  by (auto simp: isDigit_def isWhiteSpace_def)

lemma sign_not_white: "\<not> isWhiteSpace 43" "\<not> isWhiteSpace 45"
  by (auto simp: isWhiteSpace_def)

lemma parseInt10_digits:
  assumes "list_all isWhiteSpace ws" "sg \<in> {[], [43], [45]}" "ds \<noteq> []" "list_all isDigit ds"
    "rest = [] \<or> \<not> isDigit (hd rest)"
  shows "parseInt10 (ws @ sg @ ds @ rest) = signed_double (sg = [45]) (digitsValue ds)"
proof -
  obtain d ds' where ds: "ds = d # ds'" using assms(3) by (cases ds) auto
  have d: "isDigit d" using assms(4) ds by simp
  have tw: "takeWhile isDigit (ds @ rest) = ds" using takeWhile_digits assms by blast
  show ?thesis
    using assms(2) digit_not_white[OF d] tw
    by (auto simp: parseInt10_def dropWhile_white[OF assms(1)] sign_not_white ds Let_def)
qed

lemma parseInt10_none:
  assumes "list_all isWhiteSpace ws" "sg \<in> {[], [43], [45]}"
    "rest = [] \<or> (\<not> isDigit (hd rest) \<and>
       (sg = [] \<longrightarrow> \<not> isWhiteSpace (hd rest) \<and> hd rest \<noteq> 43 \<and> hd rest \<noteq> 45))"
  shows "parseInt10 (ws @ sg @ rest) = NaN"
  using assms(2,3)
  by (cases rest) (auto simp: parseInt10_def dropWhile_white[OF assms(1)] sign_not_white Let_def)

lemma signed_double_exact:
  "n < 2 ^ 53 \<Longrightarrow> signed_double negative n = Num (if negative then - int n else int n) 0"
  by (simp add: signed_double_def to_double_def)

lemma bit_length_bounds: "n < 2 ^ bit_length n \<and> (0 < n \<longrightarrow> 2 ^ (bit_length n - 1) \<le> n)"
proof (induction n rule: bit_length.induct)
  case (1 n)
  show ?case
  proof (cases "n = 0")
    case True
    then show ?thesis by (simp add: bit_length.simps)
  next
    case False
    with 1 have ih: "n div 2 < 2 ^ bit_length (n div 2)"
      "0 < n div 2 \<longrightarrow> 2 ^ (bit_length (n div 2) - 1) \<le> n div 2" by simp_all
    have b: "bit_length n = Suc (bit_length (n div 2))"
      using False by (subst bit_length.simps) simp
    have "n < 2 * 2 ^ bit_length (n div 2)" using ih(1) by linarith
    moreover have "2 ^ bit_length (n div 2) \<le> n"
    proof (cases "n div 2 = 0")
      case True
      then have "bit_length (n div 2) = 0" by (simp add: bit_length.simps)
      with False show ?thesis by simp
    next
      case nz: False
      then have "2 ^ (bit_length (n div 2) - 1) \<le> n div 2" using ih(2) by simp
      moreover have "0 < bit_length (n div 2)"
        using nz by (subst bit_length.simps) simp
      ultimately have "2 ^ bit_length (n div 2) \<le> 2 * (n div 2)"
        by (metis Suc_pred' mult_le_mono2 power_Suc)
      then show ?thesis by linarith
    qed
    ultimately show ?thesis using b by simp
  qed
qed

lemma to_double_nearest:
  assumes "to_double n = Some (m, e)"
  shows "m \<le> 2 ^ 53 \<and> 2 * \<bar>int n - int m * 2 ^ e\<bar> \<le> 2 ^ e \<and> m * 2 ^ e < 2 ^ 1024"
proof (cases "n < 2 ^ 53")
  case True
  with assms have "m = n" "e = 0" by (simp_all add: to_double_def)
  with True show ?thesis
    by simp
next
  case False
  define k where "k = bit_length n - 53"
  define q where "q = n div 2 ^ k"
  define r where "r = n mod 2 ^ k"
  define q' where "q' = (if 2 ^ (k - 1) < r \<or> (r = 2 ^ (k - 1) \<and> odd q) then q + 1 else q)"
  from False assms have me: "m = q'" "e = k" and fin: "q' * 2 ^ k < 2 ^ 1024"
    by (auto simp: to_double_def Let_def k_def q_def r_def q'_def split: if_splits)
  have n53: "2 ^ 53 \<le> n" using False by simp
  have "n < 2 ^ bit_length n" using bit_length_bounds by blast
  with n53 have "(2::nat) ^ 53 < 2 ^ bit_length n" by linarith
  then have bl: "53 < bit_length n"
    using power_less_imp_less_exp[of "2::nat" 53 "bit_length n"] by fastforce
  then have k1: "1 \<le> k" and kb: "bit_length n = k + 53" by (simp_all add: k_def)
  have "n < 2 ^ (k + 53)" using bit_length_bounds[of n] kb by simp
  then have "n < 2 ^ k * 2 ^ 53" by (simp add: power_add)
  then have qlt: "q < 2 ^ 53" unfolding q_def by (simp add: less_mult_imp_div_less mult.commute)
  then have q'le: "q' \<le> 2 ^ 53" by (simp add: q'_def)
  have n: "n = q * 2 ^ k + r" unfolding q_def r_def by (rule div_mult_mod_eq[symmetric])
  have rlt: "r < 2 ^ k" by (simp add: r_def)
  have half: "(2::nat) * 2 ^ (k - 1) = 2 ^ k" using k1 by (metis Suc_pred' less_eq_Suc_le power_Suc One_nat_def)
  have "2 * \<bar>int n - int q' * 2 ^ k\<bar> \<le> 2 ^ k"
  proof (cases "2 ^ (k - 1) < r \<or> (r = 2 ^ (k - 1) \<and> odd q)")
    case True
    then have "q' = q + 1" by (simp add: q'_def)
    then have "int n - int q' * 2 ^ k = int r - 2 ^ k" using n by (simp add: algebra_simps)
    moreover have "2 * 2 ^ (k - 1) \<le> 2 * r" using True by auto
    then have "(2::int) ^ k \<le> 2 * int r" using half by (metis of_nat_le_iff of_nat_mult of_nat_numeral of_nat_power)
    moreover have "int r < 2 ^ k" using rlt by (metis of_nat_less_iff of_nat_numeral of_nat_power)
    ultimately show ?thesis by simp
  next
    case False
    then have "q' = q" by (simp add: q'_def)
    then have "int n - int q' * 2 ^ k = int r" using n by simp
    moreover have "r \<le> 2 ^ (k - 1)" using False by auto
    then have "2 * r \<le> 2 ^ k" using half by linarith
    then have "2 * int r \<le> 2 ^ k" by (metis of_nat_le_iff of_nat_mult of_nat_numeral of_nat_power)
    ultimately show ?thesis by simp
  qed
  with q'le fin me show ?thesis by simp
qed

lemma signed_double_nearest:
  assumes "signed_double negative n = Num m e"
  shows "\<bar>m\<bar> \<le> 2 ^ 53 \<and> 0 \<le> e \<and> 2 * \<bar>int n - \<bar>m\<bar> * 2 ^ nat e\<bar> \<le> 2 ^ nat e"
proof -
  from assms obtain q k where t: "to_double n = Some (q, k)"
    and m: "m = (if negative then - int q else int q)" and e: "e = int k"
    by (auto simp: signed_double_def split: option.splits if_splits)
  from to_double_nearest[OF t] have q: "q \<le> 2 ^ 53"
    and d: "2 * \<bar>int n - int q * 2 ^ k\<bar> \<le> 2 ^ k" by blast+
  have am: "\<bar>m\<bar> = int q" using m by simp
  have "int q \<le> 2 ^ 53" using q by (metis of_nat_le_iff of_nat_numeral of_nat_power)
  with am d e show ?thesis by simp
qed

text \<open>
  Claim C8, as the code has it. \<^verbatim>\<open>PORT\<close> is 3000 when the variable is unset or empty.
  For a value made of white space, an optional sign, at least one decimal digit and then
  anything that does not start with a digit, it is the double nearest to the integer the
  digits denote, negated after a minus sign: that is the integer itself when it is below
  \<open>2 ^ 53\<close>, and in general a double \<open>m * 2 ^ e\<close> with \<open>\<bar>m\<bar> \<le> 2 ^ 53\<close> that differs from
  the integer by at most half of \<open>2 ^ e\<close> (or an infinity). For every other value that is
  not empty (white space and an optional sign followed by no digit) it is \<^verbatim>\<open>NaN\<close>: there is
  no fallback to 3000.
\<close>

theorem PORT_value:
  "PORT None = Num 3000 0 \<and> PORT (Some []) = Num 3000 0 \<and>
   (\<forall>ws sg ds rest.
      list_all isWhiteSpace ws \<and> sg \<in> {[], [43], [45]} \<and> ds \<noteq> [] \<and> list_all isDigit ds \<and>
      (rest = [] \<or> \<not> isDigit (hd rest))
      \<longrightarrow> PORT (Some (ws @ sg @ ds @ rest)) = signed_double (sg = [45]) (digitsValue ds)) \<and>
   (\<forall>negative n.
      n < 2 ^ 53 \<longrightarrow> signed_double negative n = Num (if negative then - int n else int n) 0) \<and>
   (\<forall>negative n m e.
      signed_double negative n = Num m e
      \<longrightarrow> \<bar>m\<bar> \<le> 2 ^ 53 \<and> 0 \<le> e \<and> 2 * \<bar>int n - \<bar>m\<bar> * 2 ^ nat e\<bar> \<le> 2 ^ nat e) \<and>
   (\<forall>ws sg rest.
      list_all isWhiteSpace ws \<and> sg \<in> {[], [43], [45]} \<and> ws @ sg @ rest \<noteq> [] \<and>
      (rest = [] \<or> (\<not> isDigit (hd rest) \<and>
                     (sg = [] \<longrightarrow> \<not> isWhiteSpace (hd rest) \<and> hd rest \<noteq> 43 \<and> hd rest \<noteq> 45)))
      \<longrightarrow> PORT (Some (ws @ sg @ rest)) = NaN)"
proof (intro conjI allI impI)
  show "PORT None = Num 3000 0"
    by (simp add: PORT_def parseInt10_def utf16_def isWhiteSpace_def isDigit_def digitsValue_def
          signed_double_exact)
  show "PORT (Some []) = Num 3000 0"
    by (simp add: PORT_def parseInt10_def utf16_def isWhiteSpace_def isDigit_def digitsValue_def
          signed_double_exact)
next
  fix ws sg ds rest :: "nat list"
  assume a: "list_all isWhiteSpace ws \<and> sg \<in> {[], [43], [45]} \<and> ds \<noteq> [] \<and> list_all isDigit ds \<and>
      (rest = [] \<or> \<not> isDigit (hd rest))"
  then have "parseInt10 (ws @ sg @ ds @ rest) = signed_double (sg = [45]) (digitsValue ds)"
    by (intro parseInt10_digits) auto
  then show "PORT (Some (ws @ sg @ ds @ rest)) = signed_double (sg = [45]) (digitsValue ds)"
    using a by (simp add: PORT_def)
next
  fix negative :: bool and n :: nat
  assume "n < 2 ^ 53"
  then show "signed_double negative n = Num (if negative then - int n else int n) 0"
    by (rule signed_double_exact)
next
  fix negative :: bool and n :: nat and m e :: int
  assume a: "signed_double negative n = Num m e"
  from signed_double_nearest[OF a]
  show "\<bar>m\<bar> \<le> 2 ^ 53" and "0 \<le> e" and "2 * \<bar>int n - \<bar>m\<bar> * 2 ^ nat e\<bar> \<le> 2 ^ nat e"
    by blast+
next
  fix ws sg rest :: "nat list"
  assume a: "list_all isWhiteSpace ws \<and> sg \<in> {[], [43], [45]} \<and> ws @ sg @ rest \<noteq> [] \<and>
      (rest = [] \<or> (\<not> isDigit (hd rest) \<and>
                     (sg = [] \<longrightarrow> \<not> isWhiteSpace (hd rest) \<and> hd rest \<noteq> 43 \<and> hd rest \<noteq> 45)))"
  then have "parseInt10 (ws @ sg @ rest) = NaN"
    by (intro parseInt10_none) auto
  then show "PORT (Some (ws @ sg @ rest)) = NaN"
    using a by (auto simp: PORT_def)
qed

text \<open>
  Witness for C8: \<^verbatim>\<open>PORT=" -8080abc"\<close> gives -8080; \<^verbatim>\<open>PORT=9007199254740993\<close> gives the
  double 9007199254740992 (that is \<open>4503599627370496 * 2\<close>), which differs from the integer
  by 1, half of 2; and \<^verbatim>\<open>PORT=" +"\<close> gives \<^verbatim>\<open>NaN\<close>.
\<close>

theorem PORT_value_witness:
  "PORT (Some ([32] @ [45] @ utf16 ''8080'' @ utf16 ''abc'')) = Num (- 8080) 0 \<and>
   PORT (Some ([] @ [] @ utf16 ''9007199254740993'' @ [])) = Num 4503599627370496 1 \<and>
   2 * \<bar>int 9007199254740993 - \<bar>4503599627370496\<bar> * 2 ^ nat 1\<bar> \<le> (2::int) ^ nat 1 \<and>
   PORT (Some ([32] @ [43] @ [])) = NaN"
proof -
  have w: "list_all isWhiteSpace [32]" "list_all isWhiteSpace []" by (simp_all add: isWhiteSpace_def)
  have d: "list_all isDigit (utf16 ''8080'')" "utf16 ''8080'' \<noteq> []"
    "list_all isDigit (utf16 ''9007199254740993'')" "utf16 ''9007199254740993'' \<noteq> []"
    by (simp_all add: isDigit_def utf16_def)
  have r: "\<not> isDigit (hd (utf16 ''abc''))" by (simp add: isDigit_def utf16_def)
  have v: "digitsValue (utf16 ''8080'') = 8080"
    "digitsValue (utf16 ''9007199254740993'') = 9007199254740993"
    by (simp_all add: digitsValue_def utf16_def)
  have b: "signed_double False 9007199254740993 = Num 4503599627370496 1"
    by (simp add: signed_double_def to_double_def bit_length.simps Let_def)
  note digits = PORT_value [THEN conjunct2, THEN conjunct2, THEN conjunct1, rule_format]
  note exact = PORT_value [THEN conjunct2, THEN conjunct2, THEN conjunct2, THEN conjunct1, rule_format]
  note nearest = PORT_value [THEN conjunct2, THEN conjunct2, THEN conjunct2, THEN conjunct2,
      THEN conjunct1, rule_format]
  note no_digit = PORT_value [THEN conjunct2, THEN conjunct2, THEN conjunct2, THEN conjunct2,
      THEN conjunct2, rule_format]
  have "PORT (Some ([32] @ [45] @ utf16 ''8080'' @ utf16 ''abc'')) =
          signed_double ([45::nat] = [45]) (digitsValue (utf16 ''8080''))"
    by (rule digits) (use w d r in simp)
  moreover have "signed_double True 8080 = Num (if True then - int 8080 else int 8080) 0"
    by (rule exact) simp
  ultimately have 1: "PORT (Some ([32] @ [45] @ utf16 ''8080'' @ utf16 ''abc'')) = Num (- 8080) 0"
    using v by simp
  have "PORT (Some ([] @ [] @ utf16 ''9007199254740993'' @ [])) =
          signed_double (([]::nat list) = [45]) (digitsValue (utf16 ''9007199254740993''))"
    by (rule digits) (use w d in simp)
  then have 2: "PORT (Some ([] @ [] @ utf16 ''9007199254740993'' @ [])) = Num 4503599627370496 1"
    using v b by simp
  have 3: "2 * \<bar>int 9007199254740993 - \<bar>4503599627370496\<bar> * 2 ^ nat 1\<bar> \<le> (2::int) ^ nat 1"
    using nearest [OF b] by blast
  have 4: "PORT (Some ([32] @ [43] @ [])) = NaN"
    by (rule no_digit) (use w in simp)
  from 1 2 3 4 show ?thesis by blast
qed

text \<open>
  Counterexample to C8 as stated: with \<^verbatim>\<open>PORT=abc\<close>, which does not parse as an integer,
  the port is \<^verbatim>\<open>NaN\<close> and not 3000.
\<close>

theorem PORT_unparseable_counterexample:
  "PORT (Some (utf16 ''abc'')) = NaN \<and> PORT (Some (utf16 ''abc'')) \<noteq> Num 3000 0"
  by (simp add: PORT_def parseInt10_def utf16_def isWhiteSpace_def isDigit_def)

section \<open>The server factory, the flag and the tool handlers\<close>

lemmas register_defs =
  registerTools_def registerResources_def registerPrompts_def
  registerHelloTool_def registerWeatherTool_def registerAskLlmTool_def registerLongTaskTool_def
  registerLoadBonusTool_def registerConfirmActionTool_def registerGetFeedbackTool_def
  server_tool_def server_resource_def server_resource_template_def server_prompt_def
  new_McpServer_def

lemma createServer_eq:
  "createServer st =
     (Inr (n_servers st),
      st\<lparr>servers := (servers st)(n_servers st := created_server), n_servers := Suc (n_servers st)\<rparr>)"
  by (simp add: createServer_def register_defs created_server_def Let_def)

text \<open>
  Claim C2, as the code has it. \<^verbatim>\<open>createServer\<close> never fails; it changes neither the flag
  nor the notifications nor any server that exists, and the server it returns has the
  registry \<open>created_server\<close> for either value of the flag: \<^verbatim>\<open>bonus_calculator\<close> is not
  among its tools, because \<^verbatim>\<open>registerTools\<close> does not read the flag.
\<close>

theorem createServer_result:
  "createServer st =
     (Inr (n_servers st),
      st\<lparr>servers := (servers st)(n_servers st := created_server), n_servers := Suc (n_servers st)\<rparr>)
   \<and> bonusToolLoaded (snd (createServer st)) = bonusToolLoaded st
   \<and> sent (snd (createServer st)) = sent st
   \<and> servers (snd (createServer st)) (n_servers st) = created_server
   \<and> ''bonus_calculator'' \<notin> set (tools (servers (snd (createServer st)) (n_servers st)))"
  by (simp add: createServer_eq created_server_def)

text \<open>
  Counterexample to C2 as stated: the flag is set when the factory runs, and the server
  returned has no \<^verbatim>\<open>bonus_calculator\<close>.
\<close>

theorem createServer_flag_counterexample:
  "bonusToolLoaded (startup\<lparr>bonusToolLoaded := True\<rparr>) \<and>
   fst (createServer (startup\<lparr>bonusToolLoaded := True\<rparr>)) = Inr 0 \<and>
   ''bonus_calculator'' \<notin>
     set (tools (servers (snd (createServer (startup\<lparr>bonusToolLoaded := True\<rparr>))) 0))"
  by (simp add: createServer_eq created_server_def startup_def)

declare long_task_loop.simps [simp del]

lemma long_task_loop_run:
  "long_task_loop sid numSteps i st =
     st\<lparr>sent := sent st @ map (\<lambda>j. (sid, Progress ''long_task'' j numSteps)) [i..<nat \<lceil>numSteps\<rceil>]\<rparr>"
proof (induction sid numSteps i st rule: long_task_loop.induct)
  case (1 sid numSteps i st)
  have iff: "of_nat i < numSteps \<longleftrightarrow> i < nat \<lceil>numSteps\<rceil>"
  proof -
    have "of_nat i < numSteps \<longleftrightarrow> of_int (int i) < numSteps" by simp
    also have "\<dots> \<longleftrightarrow> int i < \<lceil>numSteps\<rceil>" by (rule less_ceiling_iff[symmetric])
    also have "\<dots> \<longleftrightarrow> i < nat \<lceil>numSteps\<rceil>" by linarith
    finally show ?thesis .
  qed
  show ?case
  proof (cases "of_nat i < numSteps")
    case False
    with iff have "[i..<nat \<lceil>numSteps\<rceil>] = []" by simp
    with False show ?thesis by (subst long_task_loop.simps) simp
  next
    case True
    with iff have "[i..<nat \<lceil>numSteps\<rceil>] = i # [Suc i..<nat \<lceil>numSteps\<rceil>]"
      by (simp add: upt_conv_Cons)
    with True "1.IH"[OF True] show ?thesis
      by (subst long_task_loop.simps) (simp add: sendNotification_def)
  qed
qed

text \<open>
  Claim C7. An invocation of \<^verbatim>\<open>long_task\<close> without \<^verbatim>\<open>steps\<close> (the default, 5), and likewise
  one with \<^verbatim>\<open>steps\<close> 5, returns the completion response, and when it returns it has sent
  exactly the notifications 0/5, 1/5, 2/5, 3/5, 4/5, in this order, after whatever was
  sent before the invocation; it has changed nothing else.
\<close>

theorem long_task_default:
  "long_task_handler sid taskName None st =
     (completed taskName 5,
      st\<lparr>sent := sent st @
         [(sid, Progress ''long_task'' 0 5), (sid, Progress ''long_task'' 1 5),
          (sid, Progress ''long_task'' 2 5), (sid, Progress ''long_task'' 3 5),
          (sid, Progress ''long_task'' 4 5)]\<rparr>) \<and>
   long_task_handler sid taskName (Some 5) st = long_task_handler sid taskName None st"
proof -
  have "[0..<nat \<lceil>5::rat\<rceil>] = [0, 1, 2, 3, 4]" by (simp add: upt_rec)
  then show ?thesis by (simp add: long_task_handler_def long_task_loop_run del: long_task_loop.simps)
qed

lemma call_long_task:
  "''long_task'' \<in> set (tools (servers st sid)) \<Longrightarrow>
   call_tool p sid (LongTask taskName steps) st =
     (Inr (fst (long_task_handler sid taskName steps st)), snd (long_task_handler sid taskName steps st))"
  by (simp add: call_tool_def split: prod.splits)

lemma load_bonus_tool_handler_fresh:
  assumes "\<not> bonusToolLoaded st" "''bonus_calculator'' \<notin> set (tools (servers st sid))"
  shows "load_bonus_tool_handler sid st =
     (Inr now_loaded,
      st\<lparr>servers := (servers st)(sid := (servers st sid)\<lparr>tools := tools (servers st sid) @ [''bonus_calculator'']\<rparr>),
         bonusToolLoaded := True, sent := sent st @ [(sid, ToolsListChanged)]\<rparr>)"
  using assms
  by (simp add: load_bonus_tool_handler_def server_tool_def sendNotification_def Let_def)

lemma load_bonus_tool_handler_loaded:
  "bonusToolLoaded st \<Longrightarrow> load_bonus_tool_handler sid st = (Inr already_loaded, st)"
  by (simp add: load_bonus_tool_handler_def)

lemma load_bonus_tool_handler_duplicate:
  "\<not> bonusToolLoaded st \<Longrightarrow> ''bonus_calculator'' \<in> set (tools (servers st sid)) \<Longrightarrow>
   load_bonus_tool_handler sid st = (Inl (AlreadyRegistered ''bonus_calculator''), st)"
  by (simp add: load_bonus_tool_handler_def server_tool_def Let_def)

lemma call_load_bonus:
  "''load_bonus_tool'' \<in> set (tools (servers st sid)) \<Longrightarrow>
   call_tool p sid LoadBonusTool st = load_bonus_tool_handler sid st"
  by (simp add: call_tool_def)

text \<open>
  On a server with \<^verbatim>\<open>load_bonus_tool\<close> and without \<^verbatim>\<open>bonus_calculator\<close>, while the flag is
  false, two invocations of \<^verbatim>\<open>load_bonus_tool\<close> in sequence leave exactly one
  \<^verbatim>\<open>bonus_calculator\<close> registered: the first registers it, sets the flag and reports the
  loading, the second answers "already loaded" and changes nothing.
\<close>

lemma load_bonus_twice_while_unloaded:
  assumes "\<not> bonusToolLoaded st"
    and "''load_bonus_tool'' \<in> set (tools (servers st sid))"
    and "''bonus_calculator'' \<notin> set (tools (servers st sid))"
    and "call_tool p sid LoadBonusTool st = (r1, st1)"
    and "call_tool p sid LoadBonusTool st1 = (r2, st2)"
  shows "tools (servers st1 sid) = tools (servers st sid) @ [''bonus_calculator''] \<and>
         bonusToolLoaded st1 \<and> r1 = Inr now_loaded \<and>
         r2 = Inr already_loaded \<and> st2 = st1 \<and>
         count_list (tools (servers st2 sid)) ''bonus_calculator'' = 1"
proof -
  have 1: "load_bonus_tool_handler sid st = (r1, st1)"
    using assms(2,4) by (simp add: call_load_bonus)
  have t1: "tools (servers st1 sid) = tools (servers st sid) @ [''bonus_calculator'']"
    and f1: "bonusToolLoaded st1"
    and r1: "r1 = Inr now_loaded"
    using 1 load_bonus_tool_handler_fresh[OF assms(1,3)]
    by auto
  have "''load_bonus_tool'' \<in> set (tools (servers st1 sid))" using t1 assms(2) by simp
  then have 2: "load_bonus_tool_handler sid st1 = (r2, st2)"
    using assms(5) by (simp add: call_load_bonus)
  with f1 have r2: "r2 = Inr already_loaded" "st2 = st1"
    by (simp_all add: load_bonus_tool_handler_loaded)
  have "count_list (tools (servers st sid)) ''bonus_calculator'' = 0"
    using assms(3) by (simp add: count_list_0_iff)
  then have "count_list (tools (servers st2 sid)) ''bonus_calculator'' = 1"
    using t1 r2 by simp
  with t1 f1 r1 r2 show ?thesis by simp
qed

lemma first_server_eq:
  "first_server = startup\<lparr>servers := (servers startup)(0 := created_server), n_servers := 1\<rparr>"
  by (simp add: first_server_def createServer_eq startup_def)

lemma second_server_eq:
  "second_server =
     startup\<lparr>servers := (servers startup)
                (0 := created_server\<lparr>tools := tools created_server @ [''bonus_calculator'']\<rparr>,
                 1 := created_server),
             n_servers := 2, bonusToolLoaded := True, sent := [(0, ToolsListChanged)]\<rparr>"
proof -
  have a: "\<not> bonusToolLoaded first_server"
    "''load_bonus_tool'' \<in> set (tools (servers first_server 0))"
    "''bonus_calculator'' \<notin> set (tools (servers first_server 0))"
    by (simp_all add: first_server_eq startup_def created_server_def)
  have "step plain_platform CreateServer startup = first_server"
    by (simp add: first_server_def)
  moreover have "step plain_platform (CallTool 0 LoadBonusTool) first_server =
      first_server\<lparr>servers := (servers first_server)
                (0 := (servers first_server 0)\<lparr>tools := tools (servers first_server 0) @ [''bonus_calculator'']\<rparr>),
             bonusToolLoaded := True, sent := sent first_server @ [(0, ToolsListChanged)]\<rparr>"
    using a by (simp add: call_load_bonus load_bonus_tool_handler_fresh)
  ultimately show ?thesis
    by (simp add: second_server_def run_def createServer_eq first_server_eq startup_def
          numeral_2_eq_2)
qed

text \<open>
  Claim C5 fails on the code. In a process whose first server has loaded the bonus tool,
  a second server is made (\<open>second_server\<close>: server 0 has \<^verbatim>\<open>bonus_calculator\<close>, the flag is
  true, server 1 has the seven tools of the factory and \<^verbatim>\<open>load_bonus_tool\<close> among them).
  An invocation of \<^verbatim>\<open>load_bonus_tool\<close> on server 1 answers "already loaded" with the advice
  to call \<^verbatim>\<open>bonus_calculator\<close> and changes nothing; so do two in sequence, and server 1 has
  no \<^verbatim>\<open>bonus_calculator\<close> afterwards: a call of it on server 1 is answered with the error
  of an unregistered tool.
\<close>

theorem load_bonus_twice_on_second_server:
  "bonusToolLoaded second_server \<and>
   ''bonus_calculator'' \<in> set (tools (servers second_server 0)) \<and>
   tools (servers second_server 1) = tools created_server \<and>
   ''load_bonus_tool'' \<in> set (tools (servers second_server 1)) \<and>
   call_tool plain_platform 1 LoadBonusTool second_server = (Inr already_loaded, second_server) \<and>
   run plain_platform [CallTool 1 LoadBonusTool, CallTool 1 LoadBonusTool] second_server
     = second_server \<and>
   count_list (tools (servers second_server 1)) ''bonus_calculator'' = 0 \<and>
   call_tool plain_platform 1 (BonusCalculator (Num 1 0) (Num 2 0) Add) second_server
     = (Inl (ToolNotFound ''bonus_calculator''), second_server)"
proof -
  have f: "bonusToolLoaded second_server" by (simp add: second_server_eq)
  have t0: "''bonus_calculator'' \<in> set (tools (servers second_server 0))"
    by (simp add: second_server_eq)
  have t1: "tools (servers second_server 1) = tools created_server"
    by (simp add: second_server_eq)
  have l: "''load_bonus_tool'' \<in> set (tools (servers second_server 1))"
    "''bonus_calculator'' \<notin> set (tools (servers second_server 1))"
    unfolding t1 by (simp_all add: created_server_def)
  have c: "call_tool plain_platform 1 LoadBonusTool second_server = (Inr already_loaded, second_server)"
    using l f by (simp add: call_load_bonus load_bonus_tool_handler_loaded)
  then have r: "run plain_platform [CallTool 1 LoadBonusTool, CallTool 1 LoadBonusTool] second_server
     = second_server"
    by (simp add: run_def)
  have n: "count_list (tools (servers second_server 1)) ''bonus_calculator'' = 0"
    using l(2) by (simp add: count_list_0_iff)
  have b: "call_tool plain_platform 1 (BonusCalculator (Num 1 0) (Num 2 0) Add) second_server
     = (Inl (ToolNotFound ''bonus_calculator''), second_server)"
    using l(2) by (simp add: call_tool_def)
  from f t0 t1 l(1) c r n b show ?thesis by blast
qed

lemma call_tool_cases:
  assumes "call_tool p sid c st = (r, st')"
  shows "(\<exists>log. st' = st\<lparr>sent := log\<rparr>) \<or>
         (c = LoadBonusTool \<and> ''load_bonus_tool'' \<in> set (tools (servers st sid)) \<and>
          load_bonus_tool_handler sid st = (r, st'))"
proof (cases "tool_name c \<in> set (tools (servers st sid))")
  case False
  with assms have "st' = st" by (simp add: call_tool_def)
  then have "st' = st\<lparr>sent := sent st\<rparr>" by simp
  then show ?thesis by blast
next
  case True
  show ?thesis
  proof (cases c)
    case (LongTask taskName steps)
    with assms True have "st' = long_task_loop sid (case steps of None \<Rightarrow> 5 | Some s \<Rightarrow> s) 0 st"
      by (auto simp: call_tool_def long_task_handler_def Let_def simp del: long_task_loop.simps)
    then show ?thesis by (subst (asm) long_task_loop_run) blast
  next
    case LoadBonusTool
    with assms True show ?thesis by (simp add: call_tool_def)
  qed (use assms True in \<open>auto simp: call_tool_def intro: exI[of _ "sent st"]\<close>)
qed

lemma load_bonus_tool_handler_flag:
  assumes "load_bonus_tool_handler sid st = (r, st')"
  shows "bonusToolLoaded st \<longrightarrow> st' = st"
    and "\<not> bonusToolLoaded st \<and> bonusToolLoaded st' \<longrightarrow>
           ''bonus_calculator'' \<notin> set (tools (servers st sid)) \<and> r = Inr now_loaded \<and>
           tools (servers st' sid) = tools (servers st sid) @ [''bonus_calculator'']"
    and "\<not> bonusToolLoaded st \<and> ''bonus_calculator'' \<notin> set (tools (servers st sid)) \<longrightarrow>
           bonusToolLoaded st'"
    and "\<not> bonusToolLoaded st \<and> (\<exists>res. r = Inr res) \<longrightarrow> bonusToolLoaded st'"
proof -
  show "bonusToolLoaded st \<longrightarrow> st' = st"
    using assms by (auto simp: load_bonus_tool_handler_loaded)
  show "\<not> bonusToolLoaded st \<and> bonusToolLoaded st' \<longrightarrow>
           ''bonus_calculator'' \<notin> set (tools (servers st sid)) \<and> r = Inr now_loaded \<and>
           tools (servers st' sid) = tools (servers st sid) @ [''bonus_calculator'']"
  proof (cases "''bonus_calculator'' \<in> set (tools (servers st sid))")
    case True
    then show ?thesis using assms by (auto simp: load_bonus_tool_handler_duplicate)
  next
    case False
    then show ?thesis
      using assms by (auto simp: load_bonus_tool_handler_fresh)
  qed
  show "\<not> bonusToolLoaded st \<and> ''bonus_calculator'' \<notin> set (tools (servers st sid)) \<longrightarrow>
           bonusToolLoaded st'"
    using assms by (auto simp: load_bonus_tool_handler_fresh)
  show "\<not> bonusToolLoaded st \<and> (\<exists>res. r = Inr res) \<longrightarrow> bonusToolLoaded st'"
  proof (cases "''bonus_calculator'' \<in> set (tools (servers st sid))")
    case True
    then show ?thesis using assms by (auto simp: load_bonus_tool_handler_duplicate)
  next
    case False
    then show ?thesis
      using assms by (auto simp: load_bonus_tool_handler_fresh)
  qed
qed

lemma step_flag_kept: "bonusToolLoaded st \<Longrightarrow> bonusToolLoaded (step p op st)"
proof (cases op)
  case CreateServer
  assume "bonusToolLoaded st"
  with CreateServer show ?thesis by (simp add: createServer_eq)
next
  case (CallTool sid c)
  assume f: "bonusToolLoaded st"
  obtain r st' where c: "call_tool p sid c st = (r, st')"
    by (cases "call_tool p sid c st") auto
  from call_tool_cases[OF c] f have "bonusToolLoaded st'"
    using load_bonus_tool_handler_flag(1) by fastforce
  with CallTool c show ?thesis by simp
qed

lemma run_flag_kept: "bonusToolLoaded st \<Longrightarrow> bonusToolLoaded (run p ops st)"
  unfolding run_def by (induction ops arbitrary: st) (auto simp: step_flag_kept)

lemma step_flag_set:
  assumes "\<not> bonusToolLoaded st" "bonusToolLoaded (step p op st)"
  shows "\<exists>sid. op = CallTool sid LoadBonusTool \<and>
           call_tool p sid LoadBonusTool st = (Inr now_loaded, step p op st) \<and>
           ''bonus_calculator'' \<notin> set (tools (servers st sid)) \<and>
           tools (servers (step p op st) sid) = tools (servers st sid) @ [''bonus_calculator'']"
proof (cases op)
  case CreateServer
  with assms show ?thesis by (simp add: createServer_eq)
next
  case (CallTool sid c)
  obtain r st' where c: "call_tool p sid c st = (r, st')"
    by (cases "call_tool p sid c st") auto
  then have st': "step p op st = st'" using CallTool by simp
  from call_tool_cases[OF c] show ?thesis
  proof
    assume "\<exists>log. st' = st\<lparr>sent := log\<rparr>"
    with assms st' show ?thesis by auto
  next
    assume l: "c = LoadBonusTool \<and> ''load_bonus_tool'' \<in> set (tools (servers st sid)) \<and>
          load_bonus_tool_handler sid st = (r, st')"
    with load_bonus_tool_handler_flag(2)[of sid st r st'] assms st' CallTool c
    show ?thesis by auto
  qed
qed

lemma completed_load_sets_flag:
  assumes "\<not> bonusToolLoaded st" "completes_load_bonus p op st"
  shows "bonusToolLoaded (step p op st)"
proof -
  from assms(2) obtain sid res where op: "op = CallTool sid LoadBonusTool"
    and r: "fst (call_tool p sid LoadBonusTool st) = Inr res"
    by (cases "(p, op, st)" rule: completes_load_bonus.cases) (auto split: sum.splits)
  obtain st' where c: "call_tool p sid LoadBonusTool st = (Inr res, st')"
    using r by (cases "call_tool p sid LoadBonusTool st") auto
  from call_tool_cases[OF c] show ?thesis
  proof
    assume "\<exists>log. st' = st\<lparr>sent := log\<rparr>"
    then obtain log where st': "st' = st\<lparr>sent := log\<rparr>" by blast
    have "''load_bonus_tool'' \<in> set (tools (servers st sid))"
      using c by (auto simp: call_tool_def split: if_splits)
    then have "load_bonus_tool_handler sid st = (Inr res, st')"
      using c by (simp add: call_load_bonus)
    from load_bonus_tool_handler_flag(4)[OF this] assms(1) show ?thesis
      using op c by simp
  next
    assume "LoadBonusTool = LoadBonusTool \<and> ''load_bonus_tool'' \<in> set (tools (servers st sid)) \<and>
          load_bonus_tool_handler sid st = (Inr res, st')"
    then have "load_bonus_tool_handler sid st = (Inr res, st')" by blast
    from load_bonus_tool_handler_flag(4)[OF this] assms(1) show ?thesis
      using op c by simp
  qed
qed

lemma run_Cons: "run p (op # ops) st = run p ops (step p op st)"
  by (simp add: run_def)

lemma run_flag_set:
  assumes "\<not> bonusToolLoaded st" "bonusToolLoaded (run p ops st)"
  shows "\<exists>pre sid post. ops = pre @ CallTool sid LoadBonusTool # post \<and>
           \<not> bonusToolLoaded (run p pre st) \<and>
           call_tool p sid LoadBonusTool (run p pre st) =
             (Inr now_loaded, run p (pre @ [CallTool sid LoadBonusTool]) st) \<and>
           bonusToolLoaded (run p (pre @ [CallTool sid LoadBonusTool]) st) \<and>
           (\<forall>k<length pre. \<not> completes_load_bonus p (pre ! k) (run p (take k pre) st))"
  using assms
proof (induction ops arbitrary: st)
  case Nil
  then show ?case by (simp add: run_def)
next
  case (Cons op ops)
  show ?case
  proof (cases "bonusToolLoaded (step p op st)")
    case True
    from step_flag_set[OF Cons.prems(1) True] obtain sid where
      s: "op = CallTool sid LoadBonusTool"
         "call_tool p sid LoadBonusTool st = (Inr now_loaded, step p op st)"
      by blast
    have "op # ops = [] @ CallTool sid LoadBonusTool # ops" using s(1) by simp
    moreover have "\<not> bonusToolLoaded (run p [] st)" using Cons.prems(1) by (simp add: run_def)
    moreover have "call_tool p sid LoadBonusTool (run p [] st) =
             (Inr now_loaded, run p ([] @ [CallTool sid LoadBonusTool]) st)"
      using s by (simp add: run_def)
    moreover have "bonusToolLoaded (run p ([] @ [CallTool sid LoadBonusTool]) st)"
      using True s(1) by (simp add: run_def)
    moreover have "\<forall>k<length ([]::operation list).
        \<not> completes_load_bonus p (([]::operation list) ! k) (run p (take k []) st)" by simp
    ultimately show ?thesis by blast
  next
    case False
    from Cons.prems(2) have "bonusToolLoaded (run p ops (step p op st))" by (simp add: run_Cons)
    from Cons.IH[OF False this] obtain pre sid post where
      i: "ops = pre @ CallTool sid LoadBonusTool # post"
         "\<not> bonusToolLoaded (run p pre (step p op st))"
         "call_tool p sid LoadBonusTool (run p pre (step p op st)) =
             (Inr now_loaded, run p (pre @ [CallTool sid LoadBonusTool]) (step p op st))"
         "bonusToolLoaded (run p (pre @ [CallTool sid LoadBonusTool]) (step p op st))"
         "\<forall>k<length pre. \<not> completes_load_bonus p (pre ! k) (run p (take k pre) (step p op st))"
      by blast
    have nc: "\<not> completes_load_bonus p op st"
      using completed_load_sets_flag[OF Cons.prems(1)] False by blast
    have "\<forall>k<length (op # pre).
        \<not> completes_load_bonus p ((op # pre) ! k) (run p (take k (op # pre)) st)"
    proof (intro allI impI)
      fix k assume k: "k < length (op # pre)"
      show "\<not> completes_load_bonus p ((op # pre) ! k) (run p (take k (op # pre)) st)"
      proof (cases k)
        case 0
        with nc show ?thesis by (simp add: run_def)
      next
        case (Suc j)
        with k i(5) show ?thesis by (simp add: run_Cons)
      qed
    qed
    moreover have "op # ops = (op # pre) @ CallTool sid LoadBonusTool # post" using i(1) by simp
    moreover have "\<not> bonusToolLoaded (run p (op # pre) st)" using i(2) by (simp add: run_Cons)
    moreover have "call_tool p sid LoadBonusTool (run p (op # pre) st) =
             (Inr now_loaded, run p ((op # pre) @ [CallTool sid LoadBonusTool]) st)"
      using i(3) by (simp add: run_Cons)
    moreover have "bonusToolLoaded (run p ((op # pre) @ [CallTool sid LoadBonusTool]) st)"
      using i(4) by (simp add: run_Cons)
    ultimately show ?thesis by blast
  qed
qed

text \<open>
  Claim C6. The flag is false at startup. An operation keeps a flag that is true, and so
  does every sequence of operations: nothing resets it. An operation that finds it false
  and leaves it true is an invocation of \<^verbatim>\<open>load_bonus_tool\<close> that completes, with the
  response of a loading. An invocation of \<^verbatim>\<open>load_bonus_tool\<close> that finds the flag false and
  completes leaves it true. So in a sequence of operations that begins with the flag false
  and ends with it true, the flag is set by one invocation of \<^verbatim>\<open>load_bonus_tool\<close> that
  completes, and no operation before it is an invocation of \<^verbatim>\<open>load_bonus_tool\<close> that
  completes: it is set by the first completed one.
\<close>

theorem flag_set_by_load_bonus_only:
  "\<not> bonusToolLoaded startup \<and>
   (bonusToolLoaded st \<longrightarrow> bonusToolLoaded (step p op st)) \<and>
   (bonusToolLoaded st \<longrightarrow> bonusToolLoaded (run p ops st)) \<and>
   (\<not> bonusToolLoaded st \<and> bonusToolLoaded (step p op st) \<longrightarrow>
      (\<exists>sid. op = CallTool sid LoadBonusTool \<and>
         call_tool p sid LoadBonusTool st = (Inr now_loaded, step p op st))) \<and>
   (\<not> bonusToolLoaded st \<and> completes_load_bonus p op st \<longrightarrow> bonusToolLoaded (step p op st)) \<and>
   (\<not> bonusToolLoaded st \<and> bonusToolLoaded (run p ops st) \<longrightarrow>
      (\<exists>pre sid post. ops = pre @ CallTool sid LoadBonusTool # post \<and>
         \<not> bonusToolLoaded (run p pre st) \<and>
         call_tool p sid LoadBonusTool (run p pre st) =
           (Inr now_loaded, run p (pre @ [CallTool sid LoadBonusTool]) st) \<and>
         bonusToolLoaded (run p (pre @ [CallTool sid LoadBonusTool]) st) \<and>
         (\<forall>k<length pre. \<not> completes_load_bonus p (pre ! k) (run p (take k pre) st))))"
proof -
  have 1: "\<not> bonusToolLoaded startup" by (simp add: startup_def)
  have 2: "bonusToolLoaded st \<longrightarrow> bonusToolLoaded (step p op st)" using step_flag_kept by blast
  have 3: "bonusToolLoaded st \<longrightarrow> bonusToolLoaded (run p ops st)" using run_flag_kept by blast
  have 4: "\<not> bonusToolLoaded st \<and> bonusToolLoaded (step p op st) \<longrightarrow>
      (\<exists>sid. op = CallTool sid LoadBonusTool \<and>
         call_tool p sid LoadBonusTool st = (Inr now_loaded, step p op st))"
    using step_flag_set[of st p op] by blast
  have 5: "\<not> bonusToolLoaded st \<and> completes_load_bonus p op st \<longrightarrow> bonusToolLoaded (step p op st)"
    using completed_load_sets_flag by blast
  have 6: "\<not> bonusToolLoaded st \<and> bonusToolLoaded (run p ops st) \<longrightarrow>
      (\<exists>pre sid post. ops = pre @ CallTool sid LoadBonusTool # post \<and>
         \<not> bonusToolLoaded (run p pre st) \<and>
         call_tool p sid LoadBonusTool (run p pre st) =
           (Inr now_loaded, run p (pre @ [CallTool sid LoadBonusTool]) st) \<and>
         bonusToolLoaded (run p (pre @ [CallTool sid LoadBonusTool]) st) \<and>
         (\<forall>k<length pre. \<not> completes_load_bonus p (pre ! k) (run p (take k pre) st)))"
    using run_flag_set[of st p ops] by blast
  from 1 2 3 4 5 6 show ?thesis by blast
qed

text \<open>
  Witness for C6: on the first server of a process an invocation of \<^verbatim>\<open>load_bonus_tool\<close>
  completes with the response of a loading and sets the flag, the operations that follow
  keep it, and in a sequence that sets it an invocation of \<^verbatim>\<open>load_bonus_tool\<close> is found
  before which no such invocation completes.
\<close>

theorem flag_set_by_load_bonus_only_witness:
  "\<not> bonusToolLoaded first_server \<and>
   completes_load_bonus plain_platform (CallTool 0 LoadBonusTool) first_server \<and>
   bonusToolLoaded (step plain_platform (CallTool 0 LoadBonusTool) first_server) \<and>
   call_tool plain_platform 0 LoadBonusTool first_server =
     (Inr now_loaded, step plain_platform (CallTool 0 LoadBonusTool) first_server) \<and>
   bonusToolLoaded (run plain_platform
      [CreateServer, CallTool 1 LoadBonusTool, CallTool 0 (LongTask ''job'' None)]
      (step plain_platform (CallTool 0 LoadBonusTool) first_server)) \<and>
   bonusToolLoaded (run plain_platform
      [CallTool 0 (Hello ''Ada''), CallTool 0 LoadBonusTool, CreateServer] first_server) \<and>
   (\<exists>pre sid post.
      [CallTool 0 (Hello ''Ada''), CallTool 0 LoadBonusTool, CreateServer] =
        pre @ CallTool sid LoadBonusTool # post \<and>
      \<not> bonusToolLoaded (run plain_platform pre first_server) \<and>
      call_tool plain_platform sid LoadBonusTool (run plain_platform pre first_server) =
        (Inr now_loaded, run plain_platform (pre @ [CallTool sid LoadBonusTool]) first_server) \<and>
      bonusToolLoaded (run plain_platform (pre @ [CallTool sid LoadBonusTool]) first_server) \<and>
      (\<forall>k<length pre.
         \<not> completes_load_bonus plain_platform (pre ! k) (run plain_platform (take k pre) first_server)))"
proof -
  have a: "\<not> bonusToolLoaded first_server"
    "''load_bonus_tool'' \<in> set (tools (servers first_server 0))"
    "''bonus_calculator'' \<notin> set (tools (servers first_server 0))"
    "''hello'' \<in> set (tools (servers first_server 0))"
    by (simp_all add: first_server_eq startup_def created_server_def)
  have c: "completes_load_bonus plain_platform (CallTool 0 LoadBonusTool) first_server"
    using a by (simp add: call_load_bonus load_bonus_tool_handler_fresh)
  note kept = flag_set_by_load_bonus_only
    [of "step plain_platform (CallTool 0 LoadBonusTool) first_server"
        plain_platform CreateServer
        "[CreateServer, CallTool 1 LoadBonusTool, CallTool 0 (LongTask ''job'' None)]"]
  note first = flag_set_by_load_bonus_only
    [of first_server plain_platform "CallTool 0 LoadBonusTool"
        "[CallTool 0 (Hello ''Ada''), CallTool 0 LoadBonusTool, CreateServer]"]
  have 1: "bonusToolLoaded (step plain_platform (CallTool 0 LoadBonusTool) first_server)"
    using first a(1) c by blast
  with first a(1) have "\<exists>sid. CallTool 0 LoadBonusTool = CallTool sid LoadBonusTool \<and>
      call_tool plain_platform sid LoadBonusTool first_server =
        (Inr now_loaded, step plain_platform (CallTool 0 LoadBonusTool) first_server)"
    by blast
  then have 2: "call_tool plain_platform 0 LoadBonusTool first_server =
     (Inr now_loaded, step plain_platform (CallTool 0 LoadBonusTool) first_server)"
    by auto
  have 3: "bonusToolLoaded (run plain_platform
      [CreateServer, CallTool 1 LoadBonusTool, CallTool 0 (LongTask ''job'' None)]
      (step plain_platform (CallTool 0 LoadBonusTool) first_server))"
    using kept 1 by blast
  have h: "step plain_platform (CallTool 0 (Hello ''Ada'')) first_server = first_server"
    using a(4) by (simp add: call_tool_def)
  have "run plain_platform [CallTool 0 (Hello ''Ada''), CallTool 0 LoadBonusTool, CreateServer] first_server =
        run plain_platform [CreateServer] (step plain_platform (CallTool 0 LoadBonusTool) first_server)"
    using h by (simp add: run_def)
  moreover have "bonusToolLoaded (run plain_platform [CreateServer]
        (step plain_platform (CallTool 0 LoadBonusTool) first_server))"
    using flag_set_by_load_bonus_only
      [of "step plain_platform (CallTool 0 LoadBonusTool) first_server" plain_platform CreateServer
          "[CreateServer]"] 1
    by blast
  ultimately have 4: "bonusToolLoaded (run plain_platform
      [CallTool 0 (Hello ''Ada''), CallTool 0 LoadBonusTool, CreateServer] first_server)"
    by simp
  have 5: "\<exists>pre sid post.
      [CallTool 0 (Hello ''Ada''), CallTool 0 LoadBonusTool, CreateServer] =
        pre @ CallTool sid LoadBonusTool # post \<and>
      \<not> bonusToolLoaded (run plain_platform pre first_server) \<and>
      call_tool plain_platform sid LoadBonusTool (run plain_platform pre first_server) =
        (Inr now_loaded, run plain_platform (pre @ [CallTool sid LoadBonusTool]) first_server) \<and>
      bonusToolLoaded (run plain_platform (pre @ [CallTool sid LoadBonusTool]) first_server) \<and>
      (\<forall>k<length pre.
         \<not> completes_load_bonus plain_platform (pre ! k) (run plain_platform (take k pre) first_server))"
    using first a(1) 4 by blast
  from a(1) c 1 2 3 4 5 show ?thesis by blast
qed

lemma unloaded_ok_startup: "unloaded_ok startup"
  by (simp add: unloaded_ok_def startup_def new_McpServer_def)

lemma unloaded_ok_step: "unloaded_ok st \<Longrightarrow> unloaded_ok (step p op st)"
proof (cases "bonusToolLoaded st")
  case True
  then show ?thesis by (simp add: unloaded_ok_def step_flag_kept)
next
  case False
  assume "unloaded_ok st"
  with False have nb: "\<And>sid. ''bonus_calculator'' \<notin> set (tools (servers st sid))"
    by (simp add: unloaded_ok_def)
  show ?thesis
  proof (cases op)
    case CreateServer
    then show ?thesis using nb by (simp add: unloaded_ok_def createServer_eq created_server_def)
  next
    case (CallTool sid c)
    obtain r st' where c: "call_tool p sid c st = (r, st')"
      by (cases "call_tool p sid c st") auto
    from call_tool_cases[OF c] show ?thesis
    proof
      assume "\<exists>log. st' = st\<lparr>sent := log\<rparr>"
      then show ?thesis using nb c CallTool by (auto simp: unloaded_ok_def)
    next
      assume "c = LoadBonusTool \<and> ''load_bonus_tool'' \<in> set (tools (servers st sid)) \<and>
          load_bonus_tool_handler sid st = (r, st')"
      with load_bonus_tool_handler_flag(3)[of sid st r st'] False nb c CallTool
      show ?thesis by (simp add: unloaded_ok_def)
    qed
  qed
qed

lemma unloaded_ok_run: "unloaded_ok st \<Longrightarrow> unloaded_ok (run p ops st)"
  unfolding run_def by (induction ops arbitrary: st) (auto simp: unloaded_ok_step)

text \<open>
  In a process (every state reached from startup) an invocation of \<^verbatim>\<open>load_bonus_tool\<close> that
  finds the flag false does not fail on a registered name: it completes on every server
  that has the tool.
\<close>

lemma load_bonus_completes_while_unloaded:
  assumes "st = run p ops startup" "\<not> bonusToolLoaded st"
    "''load_bonus_tool'' \<in> set (tools (servers st sid))"
  shows "completes_load_bonus p (CallTool sid LoadBonusTool) st"
proof -
  have "unloaded_ok st" using assms(1) unloaded_ok_run[OF unloaded_ok_startup] by simp
  with assms(2) have "''bonus_calculator'' \<notin> set (tools (servers st sid))"
    by (simp add: unloaded_ok_def)
  with assms(2,3) show ?thesis
    by (simp add: call_load_bonus load_bonus_tool_handler_fresh)
qed

section \<open>The session manager\<close>

lemma lookup_session_unknown: "missing_or_unknown st hdr \<Longrightarrow> lookup_session st hdr = None"
  by (auto simp: missing_or_unknown_def lookup_session_def split: option.splits)

lemma lookup_session_Some:
  "lookup_session st hdr = Some (s, t) \<longleftrightarrow> hdr = Some s \<and> s \<noteq> [] \<and> transports st s = Some t"
  by (auto simp: lookup_session_def split: option.splits)

lemma lookup_session_None:
  "lookup_session st hdr = None \<longleftrightarrow> (case hdr of None \<Rightarrow> True | Some s \<Rightarrow> s = [] \<or> transports st s = None)"
  by (auto simp: lookup_session_def split: option.splits)

lemma handleRequest_transports:
  "handleRequest hr t req st = (resp, st1) \<Longrightarrow> transports st1 = transports st \<and> n_objs st1 = n_objs st"
  by (auto simp: handleRequest_def split: prod.splits)

lemma new_session_eq:
  "new_session st =
     (Inr (n_objs st),
      [EvCreateServer (n_servers (modules st)), EvConnect (n_servers (modules st)) (n_objs st)],
      st\<lparr>modules := snd (createServer (modules st)), n_objs := Suc (n_objs st),
         objs := (objs st)(n_objs st := \<lparr>sessionId = None, onclose_installed = True,
                                          connected = Some (n_servers (modules st)),
                                          was_closed = False\<rparr>)\<rparr>)"
  by (simp add: new_session_def createServer_eq Let_def)

text \<open>
  Claim C3. On each error path of the endpoint (a GET whose session token is missing or
  not in the table, a DELETE whose token is missing or not in the table, a verb other
  than GET, POST and DELETE) the handler answers 400, 404 or 405 and the state after it
  is the state before it: no entry of the table is inserted, removed or replaced.
\<close>

theorem error_paths_leave_table:
  assumes "(verb req = ''GET'' \<and> missing_or_unknown st (mcp_session_id req))
         \<or> (verb req = ''DELETE'' \<and> missing_or_unknown st (mcp_session_id req))
         \<or> verb req \<notin> {''GET'', ''POST'', ''DELETE''}"
  shows "mcp_endpoint hr req st =
           (if verb req = ''GET'' then
              (Responded \<lparr>status = 400, json = ErrorBody ''Invalid or missing session ID''\<rparr>,
               [EvRespond 400], st)
            else if verb req = ''DELETE'' then
              (Responded \<lparr>status = 404, json = ErrorBody ''Session not found''\<rparr>,
               [EvRespond 404], st)
            else
              (Responded \<lparr>status = 405, json = ErrorBody ''Method not allowed''\<rparr>,
               [EvRespond 405], st))
       \<and> transports (snd (snd (mcp_endpoint hr req st))) = transports st"
  using assms by (auto simp: mcp_endpoint_def lookup_session_unknown)

text \<open>
  Witness for C3: with one session \<^verbatim>\<open>s1\<close> open, a GET and a DELETE for the unknown token
  \<^verbatim>\<open>s2\<close>, and a PUT.
\<close>

theorem error_paths_leave_table_witness:
  "missing_or_unknown session_open (Some ''s2'') \<and>
   mcp_endpoint (initializing ''s3'') (exchange ''GET'' (Some ''s2'')) session_open =
     (Responded \<lparr>status = 400, json = ErrorBody ''Invalid or missing session ID''\<rparr>,
      [EvRespond 400], session_open) \<and>
   fst (mcp_endpoint (initializing ''s3'') (exchange ''DELETE'' (Some ''s2'')) session_open) =
     Responded \<lparr>status = 404, json = ErrorBody ''Session not found''\<rparr> \<and>
   transports (snd (snd (mcp_endpoint (initializing ''s3'') (exchange ''DELETE'' (Some ''s2''))
     session_open))) = transports session_open \<and>
   fst (mcp_endpoint (initializing ''s3'') (exchange ''PUT'' (Some ''s1'')) session_open) =
     Responded \<lparr>status = 405, json = ErrorBody ''Method not allowed''\<rparr> \<and>
   transports (snd (snd (mcp_endpoint (initializing ''s3'') (exchange ''PUT'' (Some ''s1''))
     session_open))) = transports session_open"
proof -
  have t: "transports session_open = [''s1'' \<mapsto> 0]"
    by (simp add: session_open_def mcp_endpoint_def exchange_def lookup_session_def new_session_eq
          post_dispatch_def post_store_def handleRequest_def initializing_def http_startup_def)
  then have u: "missing_or_unknown session_open (Some ''s2'')"
    by (simp add: missing_or_unknown_def)
  note g = error_paths_leave_table [of "exchange ''GET'' (Some ''s2'')" session_open "initializing ''s3''"]
  note d = error_paths_leave_table [of "exchange ''DELETE'' (Some ''s2'')" session_open "initializing ''s3''"]
  note p = error_paths_leave_table [of "exchange ''PUT'' (Some ''s1'')" session_open "initializing ''s3''"]
  have 1: "mcp_endpoint (initializing ''s3'') (exchange ''GET'' (Some ''s2'')) session_open =
     (Responded \<lparr>status = 400, json = ErrorBody ''Invalid or missing session ID''\<rparr>,
      [EvRespond 400], session_open)"
    using g u by (simp add: exchange_def)
  have 2: "fst (mcp_endpoint (initializing ''s3'') (exchange ''DELETE'' (Some ''s2'')) session_open) =
     Responded \<lparr>status = 404, json = ErrorBody ''Session not found''\<rparr> \<and>
   transports (snd (snd (mcp_endpoint (initializing ''s3'') (exchange ''DELETE'' (Some ''s2''))
     session_open))) = transports session_open"
    using d u by (simp add: exchange_def)
  have 3: "fst (mcp_endpoint (initializing ''s3'') (exchange ''PUT'' (Some ''s1'')) session_open) =
     Responded \<lparr>status = 405, json = ErrorBody ''Method not allowed''\<rparr> \<and>
   transports (snd (snd (mcp_endpoint (initializing ''s3'') (exchange ''PUT'' (Some ''s1''))
     session_open))) = transports session_open"
    using p by (simp add: exchange_def)
  from u 1 2 3 show ?thesis by blast
qed

subsection \<open>The POST branch in program order\<close>

lemma post_dispatch_cases:
  assumes "post_dispatch hr req st = (out, evs, tr, st1)"
  shows "\<exists>evs0 t st0 resp.
           tr = Some t \<and> handleRequest hr t req st0 = (resp, st1) \<and> out = Responded resp \<and>
           evs = evs0 @ [EvHandleRequest t] \<and> transports st0 = transports st \<and>
           ((lookup_session st (mcp_session_id req) = None \<and> t = n_objs st \<and>
             evs0 = [EvCreateServer (n_servers (modules st)), EvConnect (n_servers (modules st)) t])
            \<or> (\<exists>s. lookup_session st (mcp_session_id req) = Some (s, t) \<and> evs0 = [] \<and> st0 = st))"
proof (cases "lookup_session st (mcp_session_id req)")
  case None
  let ?st0 = "st\<lparr>modules := snd (createServer (modules st)), n_objs := Suc (n_objs st),
         objs := (objs st)(n_objs st := \<lparr>sessionId = None, onclose_installed = True,
                                          connected = Some (n_servers (modules st)),
                                          was_closed = False\<rparr>)\<rparr>"
  obtain resp where h: "handleRequest hr (n_objs st) req ?st0 = (resp, st1)"
    and o: "out = Responded resp" "tr = Some (n_objs st)"
      "evs = [EvCreateServer (n_servers (modules st)), EvConnect (n_servers (modules st)) (n_objs st)]
               @ [EvHandleRequest (n_objs st)]"
    using assms None by (auto simp: post_dispatch_def new_session_eq split: prod.splits)
  have "transports ?st0 = transports st" by simp
  with h o None show ?thesis by blast
next
  case (Some a)
  with assms show ?thesis
    by (cases a) (auto simp: post_dispatch_def split: prod.splits)
qed

lemma post_store_cases:
  assumes "post_store t st = (evs, st')"
  shows "(\<exists>i. sessionId (objs st t) = Some i \<and> i \<noteq> [] \<and> transports st i = None \<and>
              evs = [EvSet i t] \<and> st' = st\<lparr>transports := (transports st)(i \<mapsto> t)\<rparr>)
         \<or> (evs = [] \<and> st' = st)"
  using assms by (auto simp: post_store_def split: option.splits if_splits)

lemma mcp_endpoint_POST:
  assumes "verb req = ''POST''" "mcp_endpoint hr req st = (out, evs, st')"
  shows "\<exists>evs1 t st1 evs2.
           post_dispatch hr req st = (out, evs1, Some t, st1) \<and>
           post_store t st1 = (evs2, st') \<and> evs = evs1 @ evs2"
proof -
  obtain out1 evs1 tr st1 where d: "post_dispatch hr req st = (out1, evs1, tr, st1)"
    by (cases "post_dispatch hr req st") auto
  from post_dispatch_cases[OF d] obtain t where t: "tr = Some t" by blast
  obtain evs2 st2 where s: "post_store t st1 = (evs2, st2)"
    by (cases "post_store t st1") auto
  from assms d t s have "out = out1" "evs = evs1 @ evs2" "st' = st2"
    by (auto simp: mcp_endpoint_def)
  with d t s show ?thesis by blast
qed

text \<open>
  A POST exchange during which no other exchange is handled. When it stores a session, the
  write to the table comes after the call of \<^verbatim>\<open>transport.handleRequest\<close>, which is handed
  the response object, and is the last step of the handler. When the handler has
  finished, the table is the old table with the session id mapped to the transport, and
  the id is the non-empty \<^verbatim>\<open>sessionId\<close> of that transport. For an exchange without a known
  token the run is: create the server, connect, hand the request to the transport, store.
\<close>

lemma post_stores_after_dispatch:
  assumes "verb req = ''POST''" and "mcp_endpoint hr req st = (out, evs, st')"
    and "EvSet i t \<in> set evs"
  shows "occurs_before (EvHandleRequest t) (EvSet i t) evs \<and>
         \<not> occurs_before (EvSet i t) (EvHandleRequest t) evs \<and>
         last evs = EvSet i t \<and>
         transports st' = (transports st)(i \<mapsto> t) \<and>
         i \<notin> dom (transports st) \<and> i \<noteq> [] \<and> sessionId (objs st' t) = Some i \<and>
         (lookup_session st (mcp_session_id req) = None \<longrightarrow>
            t = n_objs st \<and>
            evs = [EvCreateServer (n_servers (modules st)), EvConnect (n_servers (modules st)) t,
                   EvHandleRequest t, EvSet i t])"
proof -
  from mcp_endpoint_POST[OF assms(1,2)] obtain evs1 t0 st1 evs2 where
    d: "post_dispatch hr req st = (out, evs1, Some t0, st1)"
    and s: "post_store t0 st1 = (evs2, st')" and e: "evs = evs1 @ evs2"
    by blast
  from post_dispatch_cases[OF d] obtain evs0 st0 resp where
    h: "handleRequest hr t0 req st0 = (resp, st1)"
    and e1: "evs1 = evs0 @ [EvHandleRequest t0]"
    and tab: "transports st0 = transports st"
    and e0: "(lookup_session st (mcp_session_id req) = None \<and> t0 = n_objs st \<and>
              evs0 = [EvCreateServer (n_servers (modules st)), EvConnect (n_servers (modules st)) t0])
             \<or> (lookup_session st (mcp_session_id req) \<noteq> None \<and> evs0 = [])"
    by auto
  have no1: "EvSet i t \<notin> set evs1" using e0 e1 by auto
  with assms(3) e have in2: "EvSet i t \<in> set evs2" by simp
  from post_store_cases[OF s] in2 have
    c: "sessionId (objs st1 t) = Some i" "i \<noteq> []" "transports st1 i = None"
       "evs2 = [EvSet i t]"
       "st' = st1\<lparr>transports := (transports st1)(i \<mapsto> t)\<rparr>" and tt: "t0 = t"
    by auto
  from handleRequest_transports[OF h] tab have t1: "transports st1 = transports st" by simp
  have ev: "evs = evs0 @ [EvHandleRequest t, EvSet i t]" using e e1 c(4) tt by simp
  have ob: "occurs_before (EvHandleRequest t) (EvSet i t) evs"
    "\<not> occurs_before (EvSet i t) (EvHandleRequest t) evs"
    using e0 ev by (auto simp: occurs_before_def)
  have "last evs = EvSet i t" using ev by simp
  moreover have "transports st' = (transports st)(i \<mapsto> t)" using c(5) t1 by simp
  moreover have "i \<notin> dom (transports st)" using c(3) t1 by auto
  moreover have "sessionId (objs st' t) = Some i" using c(1,5) by simp
  moreover have "lookup_session st (mcp_session_id req) = None \<longrightarrow>
            t = n_objs st \<and>
            evs = [EvCreateServer (n_servers (modules st)), EvConnect (n_servers (modules st)) t,
                   EvHandleRequest t, EvSet i t]"
    using e0 ev tt by auto
  ultimately show ?thesis using ob c(2) by blast
qed

lemma session_open_eq:
  "session_open =
     \<lparr>transports = [''s1'' \<mapsto> 0],
      objs = (objs http_startup)
               (0 := \<lparr>sessionId = Some ''s1'', onclose_installed = True, connected = Some 0,
                      was_closed = False\<rparr>),
      n_objs = 1, modules = first_server\<rparr>"
  by (simp add: session_open_def mcp_endpoint_def exchange_def lookup_session_def new_session_eq
        post_dispatch_def post_store_def handleRequest_def initializing_def http_startup_def
        first_server_def startup_def createServer_eq)

lemma first_post:
  "mcp_endpoint (initializing ''s1'') (exchange ''POST'' None) http_startup =
     (Responded \<lparr>status = 200, json = SdkBody []\<rparr>,
      [EvCreateServer 0, EvConnect 0 0, EvHandleRequest 0, EvSet ''s1'' 0],
      session_open)"
proof -
  have "fst (mcp_endpoint (initializing ''s1'') (exchange ''POST'' None) http_startup) =
          Responded \<lparr>status = 200, json = SdkBody []\<rparr>"
    by (simp add: mcp_endpoint_def exchange_def lookup_session_def new_session_eq
          post_dispatch_def post_store_def handleRequest_def initializing_def http_startup_def startup_def)
  moreover have "fst (snd (mcp_endpoint (initializing ''s1'') (exchange ''POST'' None) http_startup)) =
          [EvCreateServer 0, EvConnect 0 0, EvHandleRequest 0, EvSet ''s1'' 0]"
    by (simp add: mcp_endpoint_def exchange_def lookup_session_def new_session_eq
          post_dispatch_def post_store_def handleRequest_def initializing_def http_startup_def startup_def)
  ultimately show ?thesis
    by (simp add: session_open_def prod_eq_iff)
qed

text \<open>
  The first POST of a process, up to the end of the \<^verbatim>\<open>await\<close>: the transport has the
  session id \<^verbatim>\<open>s1\<close> and the response has been produced, and the table is still empty. A GET
  carrying \<^verbatim>\<open>s1\<close> that is handled in this state is answered 400; whether an exchange that
  uses the token of the response can be handled before the handler is resumed is decided
  by the SDK and the event loop, which are not part of this program.
\<close>

lemma first_post_awaiting:
  "\<exists>st1. post_dispatch (initializing ''s1'') (exchange ''POST'' None) http_startup =
          (Responded \<lparr>status = 200, json = SdkBody []\<rparr>,
           [EvCreateServer 0, EvConnect 0 0, EvHandleRequest 0], Some 0, st1) \<and>
        sessionId (objs st1 0) = Some ''s1'' \<and> transports st1 = Map.empty \<and>
        fst (mcp_endpoint (initializing ''s1'') (exchange ''GET'' (Some ''s1'')) st1) =
          Responded \<lparr>status = 400, json = ErrorBody ''Invalid or missing session ID''\<rparr> \<and>
        post_store 0 st1 = ([EvSet ''s1'' 0], session_open)"
proof -
  obtain out evs tr st1 where
    d: "post_dispatch (initializing ''s1'') (exchange ''POST'' None) http_startup = (out, evs, tr, st1)"
    by (cases "post_dispatch (initializing ''s1'') (exchange ''POST'' None) http_startup") auto
  have o: "out = Responded \<lparr>status = 200, json = SdkBody []\<rparr>"
    "evs = [EvCreateServer 0, EvConnect 0 0, EvHandleRequest 0]" "tr = Some 0"
    using d by (auto simp: exchange_def lookup_session_def new_session_eq
          post_dispatch_def handleRequest_def initializing_def http_startup_def startup_def)
  have s: "sessionId (objs st1 0) = Some ''s1''" "transports st1 = Map.empty"
    using d by (auto simp: exchange_def lookup_session_def new_session_eq
          post_dispatch_def handleRequest_def initializing_def http_startup_def startup_def)
  have g: "fst (mcp_endpoint (initializing ''s1'') (exchange ''GET'' (Some ''s1'')) st1) =
          Responded \<lparr>status = 400, json = ErrorBody ''Invalid or missing session ID''\<rparr>"
    using s(2) by (simp add: mcp_endpoint_def exchange_def lookup_session_def)
  have "snd (snd (mcp_endpoint (initializing ''s1'') (exchange ''POST'' None) http_startup)) =
          snd (post_store 0 st1)"
    using d o by (simp add: mcp_endpoint_def exchange_def split: prod.splits)
  then have "snd (post_store 0 st1) = session_open" by (simp add: session_open_def)
  moreover have "fst (post_store 0 st1) = [EvSet ''s1'' 0]"
    using s by (simp add: post_store_def)
  ultimately have p: "post_store 0 st1 = ([EvSet ''s1'' 0], session_open)"
    by (simp add: prod_eq_iff)
  from d o s g p show ?thesis by blast
qed

subsection \<open>The DELETE branch\<close>

lemma unknown_tokens_alike:
  assumes "lookup_session st (Some t) = None" "lookup_session st (Some u) = None"
  shows "mcp_endpoint hr (q\<lparr>mcp_session_id := Some t\<rparr>) st =
         mcp_endpoint (seen_as t hr) (q\<lparr>mcp_session_id := Some u\<rparr>) st"
proof -
  have h: "\<And>tr st0. handleRequest (seen_as t hr) tr (q\<lparr>mcp_session_id := Some u\<rparr>) st0 =
                     handleRequest hr tr (q\<lparr>mcp_session_id := Some t\<rparr>) st0"
    by (simp add: handleRequest_def seen_as_def)
  show ?thesis
    using assms by (simp add: mcp_endpoint_def post_dispatch_def h new_session_eq)
qed

lemma transport_close_result:
  assumes "transport_close tr st = (evs, st1)"
  shows "objs st1 = (objs st)(tr := (objs st tr)\<lparr>was_closed := True\<rparr>)"
    and "modules st1 = modules st" and "n_objs st1 = n_objs st"
    and "transports st1 =
           (\<lambda>k. if onclose_installed (objs st tr) \<and> sessionId (objs st tr) = Some k \<and> k \<noteq> []
                then None else transports st k)"
  using assms
  by (auto simp: transport_close_def onclose_def Let_def fun_eq_iff
           split: if_splits option.splits prod.splits)

lemma transport_close_table:
  "transport_close tr st = (evs, st1) \<Longrightarrow> transports st1 \<subseteq>\<^sub>m transports st"
  by (auto simp: transport_close_def onclose_def Let_def map_le_def
           split: if_splits option.splits prod.splits)

text \<open>
  A DELETE exchange carrying \<open>t\<close>, in a state whose table has no empty key (every state
  the handler reaches, by \<open>table_keys_nonempty\<close>). When \<open>t\<close> is in the table, with
  transport \<open>tr\<close>, the answer is 200, the transport is closed, and the table afterwards is
  the table before without \<open>t\<close> (and without the session id of \<open>tr\<close>, which its \<^verbatim>\<open>onclose\<close>
  deletes): no other entry is removed and none is added. When \<open>t\<close> is not in the table the
  answer is 404 and the state is unchanged. In the state that the successful DELETE leaves,
  the handler treats \<open>t\<close> as it treats any token \<open>u\<close> that is not in the table.
\<close>

lemma delete_exchange:
  assumes "[] \<notin> dom (transports st)"
    and "verb req = ''DELETE''" and "mcp_session_id req = Some t"
    and "mcp_endpoint hr req st = (out, evs, st')"
  shows "(\<forall>tr. transports st t = Some tr \<longrightarrow>
            out = Responded \<lparr>status = 200, json = MessageBody ''Session closed''\<rparr> \<and>
            transports st' =
              (\<lambda>k. if k = t \<or> (onclose_installed (objs st tr) \<and> sessionId (objs st tr) = Some k \<and> k \<noteq> [])
                   then None else transports st k) \<and>
            objs st' = (objs st)(tr := (objs st tr)\<lparr>was_closed := True\<rparr>) \<and>
            modules st' = modules st \<and> n_objs st' = n_objs st \<and>
            (\<forall>q u. u \<notin> dom (transports st') \<longrightarrow>
               mcp_endpoint hr (q\<lparr>mcp_session_id := Some t\<rparr>) st' =
               mcp_endpoint (seen_as t hr) (q\<lparr>mcp_session_id := Some u\<rparr>) st'))
       \<and> (t \<notin> dom (transports st) \<longrightarrow>
            out = Responded \<lparr>status = 404, json = ErrorBody ''Session not found''\<rparr> \<and>
            evs = [EvRespond 404] \<and> st' = st)"
proof -
  have absent: "t \<notin> dom (transports st) \<longrightarrow>
            out = Responded \<lparr>status = 404, json = ErrorBody ''Session not found''\<rparr> \<and>
            evs = [EvRespond 404] \<and> st' = st"
  proof
    assume "t \<notin> dom (transports st)"
    then have "lookup_session st (Some t) = None"
      by (auto simp: lookup_session_None)
    with assms(2,3,4) show
      "out = Responded \<lparr>status = 404, json = ErrorBody ''Session not found''\<rparr> \<and>
       evs = [EvRespond 404] \<and> st' = st"
      by (auto simp: mcp_endpoint_def)
  qed
  have present: "\<forall>tr. transports st t = Some tr \<longrightarrow>
            out = Responded \<lparr>status = 200, json = MessageBody ''Session closed''\<rparr> \<and>
            transports st' =
              (\<lambda>k. if k = t \<or> (onclose_installed (objs st tr) \<and> sessionId (objs st tr) = Some k \<and> k \<noteq> [])
                   then None else transports st k) \<and>
            objs st' = (objs st)(tr := (objs st tr)\<lparr>was_closed := True\<rparr>) \<and>
            modules st' = modules st \<and> n_objs st' = n_objs st \<and>
            (\<forall>q u. u \<notin> dom (transports st') \<longrightarrow>
               mcp_endpoint hr (q\<lparr>mcp_session_id := Some t\<rparr>) st' =
               mcp_endpoint (seen_as t hr) (q\<lparr>mcp_session_id := Some u\<rparr>) st')"
  proof (intro allI impI)
    fix tr assume tr: "transports st t = Some tr"
    then have ne: "t \<noteq> []" using assms(1) by auto
    with tr have l: "lookup_session st (Some t) = Some (t, tr)"
      by (simp add: lookup_session_def)
    obtain evs1 st1 where c: "transport_close tr st = (evs1, st1)"
      by (cases "transport_close tr st") auto
    from assms(2,3,4) l c have
      out: "out = Responded \<lparr>status = 200, json = MessageBody ''Session closed''\<rparr>"
      and st': "st' = st1\<lparr>transports := (transports st1)(t := None)\<rparr>"
      by (auto simp: mcp_endpoint_def)
    have tab: "transports st' =
              (\<lambda>k. if k = t \<or> (onclose_installed (objs st tr) \<and> sessionId (objs st tr) = Some k \<and> k \<noteq> [])
                   then None else transports st k)"
      using st' transport_close_result(4)[OF c] by (auto simp: fun_eq_iff)
    have rest: "objs st' = (objs st)(tr := (objs st tr)\<lparr>was_closed := True\<rparr>)"
      "modules st' = modules st" "n_objs st' = n_objs st"
      using st' transport_close_result(1,2,3)[OF c] by simp_all
    have gone: "t \<notin> dom (transports st')" using st' by simp
    have alike: "\<forall>q u. u \<notin> dom (transports st') \<longrightarrow>
                 mcp_endpoint hr (q\<lparr>mcp_session_id := Some t\<rparr>) st' =
                 mcp_endpoint (seen_as t hr) (q\<lparr>mcp_session_id := Some u\<rparr>) st'"
    proof (intro allI impI)
      fix q :: request and u
      assume "u \<notin> dom (transports st')"
      then have lu: "lookup_session st' (Some u) = None" by (auto simp: lookup_session_None)
      have lt: "lookup_session st' (Some t) = None"
        using gone by (auto simp: lookup_session_None)
      show "mcp_endpoint hr (q\<lparr>mcp_session_id := Some t\<rparr>) st' =
                 mcp_endpoint (seen_as t hr) (q\<lparr>mcp_session_id := Some u\<rparr>) st'"
        by (rule unknown_tokens_alike[OF lt lu])
    qed
    from out tab rest alike show
      "out = Responded \<lparr>status = 200, json = MessageBody ''Session closed''\<rparr> \<and>
            transports st' =
              (\<lambda>k. if k = t \<or> (onclose_installed (objs st tr) \<and> sessionId (objs st tr) = Some k \<and> k \<noteq> [])
                   then None else transports st k) \<and>
            objs st' = (objs st)(tr := (objs st tr)\<lparr>was_closed := True\<rparr>) \<and>
            modules st' = modules st \<and> n_objs st' = n_objs st \<and>
            (\<forall>q u. u \<notin> dom (transports st') \<longrightarrow>
               mcp_endpoint hr (q\<lparr>mcp_session_id := Some t\<rparr>) st' =
               mcp_endpoint (seen_as t hr) (q\<lparr>mcp_session_id := Some u\<rparr>) st')"
      by blast
  qed
  from absent present show ?thesis by blast
qed

lemma table_keys_nonempty:
  assumes "[] \<notin> dom (transports st)" "mcp_endpoint hr req st = (out, evs, st')"
  shows "[] \<notin> dom (transports st')"
proof -
  consider "verb req = ''GET''" | "verb req \<noteq> ''GET''" "verb req = ''POST''"
    | "verb req \<noteq> ''GET''" "verb req \<noteq> ''POST''" "verb req = ''DELETE''"
    | "verb req \<noteq> ''GET''" "verb req \<noteq> ''POST''" "verb req \<noteq> ''DELETE''"
    by blast
  then show ?thesis
  proof cases
    case 1
    with assms show ?thesis
      by (auto simp: mcp_endpoint_def split: option.splits prod.splits dest: handleRequest_transports)
  next
    case 2
    from mcp_endpoint_POST[OF 2(2) assms(2)] obtain evs1 t st1 evs2 where
      d: "post_dispatch hr req st = (out, evs1, Some t, st1)"
      and s: "post_store t st1 = (evs2, st')"
      by blast
    from post_dispatch_cases[OF d] obtain st0 resp where
      "handleRequest hr t req st0 = (resp, st1)" "transports st0 = transports st"
      by blast
    with handleRequest_transports have "transports st1 = transports st" by fastforce
    with assms(1) post_store_cases[OF s] show ?thesis by auto
  next
    case 3
    show ?thesis
    proof (cases "lookup_session st (mcp_session_id req)")
      case None
      with 3 assms show ?thesis by (auto simp: mcp_endpoint_def)
    next
      case (Some a)
      obtain s t where a: "a = (s, t)" by (cases a) auto
      obtain evs1 st1 where c: "transport_close t st = (evs1, st1)"
        by (cases "transport_close t st") auto
      from 3 Some a c assms(2) have "st' = st1\<lparr>transports := (transports st1)(s := None)\<rparr>"
        by (auto simp: mcp_endpoint_def)
      moreover from transport_close_table[OF c] assms(1) have "[] \<notin> dom (transports st1)"
        by (auto simp: map_le_def dom_def)
      ultimately show ?thesis by auto
    qed
  next
    case 4
    with assms show ?thesis by (auto simp: mcp_endpoint_def)
  qed
qed

lemma table_keys_nonempty_startup: "[] \<notin> dom (transports http_startup)"
  by (simp add: http_startup_def)

lemma post_awaiting_eq: "post_awaiting = session_open"
  by (simp add: post_awaiting_def post_dispatch_def exchange_def lookup_session_def
        handleRequest_def initializing_def session_open_eq)

lemma deleted_meanwhile_eq:
  "deleted_meanwhile =
     \<lparr>transports = Map.empty,
      objs = (objs http_startup)
               (0 := \<lparr>sessionId = Some ''s1'', onclose_installed = True, connected = Some 0,
                      was_closed = True\<rparr>),
      n_objs = 1, modules = first_server\<rparr>"
  by (simp add: deleted_meanwhile_def post_awaiting_eq mcp_endpoint_def exchange_def
        lookup_session_def transport_close_def onclose_def Let_def session_open_eq)

lemma post_resumed_eq:
  "post_resumed =
     \<lparr>transports = [''s1'' \<mapsto> 0],
      objs = (objs http_startup)
               (0 := \<lparr>sessionId = Some ''s1'', onclose_installed = True, connected = Some 0,
                      was_closed = True\<rparr>),
      n_objs = 1, modules = first_server\<rparr>"
  by (simp add: post_resumed_def post_store_def deleted_meanwhile_eq)

text \<open>
  Claim C4 fails on the code. The session \<^verbatim>\<open>s1\<close> is open, with transport 0. A POST carrying
  \<^verbatim>\<open>s1\<close> is handed to the transport and awaits it. During that \<^verbatim>\<open>await\<close> a DELETE carrying
  \<^verbatim>\<open>s1\<close> is handled: it closes the transport, answers 200 and leaves the table empty. The
  POST is resumed: the transport has the session id \<^verbatim>\<open>s1\<close>, the table has no such key, so
  lines 110 to 114 store the closed transport under \<^verbatim>\<open>s1\<close> again. After the successful
  DELETE the token is in the table: a GET carrying \<^verbatim>\<open>s1\<close> is handed to the closed
  transport, and a second DELETE carrying \<^verbatim>\<open>s1\<close> is answered 200, whereas the token \<^verbatim>\<open>s2\<close>,
  which was never issued, is answered 400 and 404.
\<close>

theorem delete_during_post_is_undone:
  "lookup_session session_open (Some ''s1'') = Some (''s1'', 0) \<and>
   post_dispatch (initializing ''s1'') (exchange ''POST'' (Some ''s1'')) session_open =
     (Responded \<lparr>status = 200, json = SdkBody []\<rparr>, [EvHandleRequest 0], Some 0, post_awaiting) \<and>
   mcp_endpoint (initializing ''s1'') (exchange ''DELETE'' (Some ''s1'')) post_awaiting =
     (Responded \<lparr>status = 200, json = MessageBody ''Session closed''\<rparr>,
      [EvClose 0, EvDelete ''s1'', EvDelete ''s1'', EvRespond 200], deleted_meanwhile) \<and>
   transports deleted_meanwhile = Map.empty \<and>
   post_store 0 deleted_meanwhile = ([EvSet ''s1'' 0], post_resumed) \<and>
   transports post_resumed = [''s1'' \<mapsto> 0] \<and>
   was_closed (objs post_resumed 0) \<and>
   fst (snd (mcp_endpoint (initializing ''s1'') (exchange ''GET'' (Some ''s1'')) post_resumed)) =
     [EvHandleRequest 0] \<and>
   mcp_endpoint (initializing ''s1'') (exchange ''GET'' (Some ''s2'')) post_resumed =
     (Responded \<lparr>status = 400, json = ErrorBody ''Invalid or missing session ID''\<rparr>,
      [EvRespond 400], post_resumed) \<and>
   fst (mcp_endpoint (initializing ''s1'') (exchange ''DELETE'' (Some ''s1'')) post_resumed) =
     Responded \<lparr>status = 200, json = MessageBody ''Session closed''\<rparr> \<and>
   fst (mcp_endpoint (initializing ''s1'') (exchange ''DELETE'' (Some ''s2'')) post_resumed) =
     Responded \<lparr>status = 404, json = ErrorBody ''Session not found''\<rparr>"
proof -
  have 1: "lookup_session session_open (Some ''s1'') = Some (''s1'', 0)"
    by (simp add: lookup_session_def session_open_eq)
  have "fst (post_dispatch (initializing ''s1'') (exchange ''POST'' (Some ''s1'')) session_open) =
          Responded \<lparr>status = 200, json = SdkBody []\<rparr>"
    "fst (snd (post_dispatch (initializing ''s1'') (exchange ''POST'' (Some ''s1'')) session_open)) =
          [EvHandleRequest 0]"
    "fst (snd (snd (post_dispatch (initializing ''s1'') (exchange ''POST'' (Some ''s1'')) session_open))) =
          Some 0"
    by (simp_all add: post_dispatch_def exchange_def 1 handleRequest_def initializing_def
          split: prod.splits)
  then have 2: "post_dispatch (initializing ''s1'') (exchange ''POST'' (Some ''s1'')) session_open =
     (Responded \<lparr>status = 200, json = SdkBody []\<rparr>, [EvHandleRequest 0], Some 0, post_awaiting)"
    by (simp add: post_awaiting_def prod_eq_iff)
  have "fst (mcp_endpoint (initializing ''s1'') (exchange ''DELETE'' (Some ''s1'')) post_awaiting) =
          Responded \<lparr>status = 200, json = MessageBody ''Session closed''\<rparr>"
    "fst (snd (mcp_endpoint (initializing ''s1'') (exchange ''DELETE'' (Some ''s1'')) post_awaiting)) =
          [EvClose 0, EvDelete ''s1'', EvDelete ''s1'', EvRespond 200]"
    by (simp_all add: post_awaiting_eq mcp_endpoint_def exchange_def lookup_session_def
          transport_close_def onclose_def Let_def session_open_eq)
  then have 3: "mcp_endpoint (initializing ''s1'') (exchange ''DELETE'' (Some ''s1'')) post_awaiting =
     (Responded \<lparr>status = 200, json = MessageBody ''Session closed''\<rparr>,
      [EvClose 0, EvDelete ''s1'', EvDelete ''s1'', EvRespond 200], deleted_meanwhile)"
    by (simp add: deleted_meanwhile_def prod_eq_iff)
  have 4: "transports deleted_meanwhile = Map.empty" by (simp add: deleted_meanwhile_eq)
  have "fst (post_store 0 deleted_meanwhile) = [EvSet ''s1'' 0]"
    by (simp add: post_store_def deleted_meanwhile_eq)
  then have 5: "post_store 0 deleted_meanwhile = ([EvSet ''s1'' 0], post_resumed)"
    by (simp add: post_resumed_def prod_eq_iff)
  have 6: "transports post_resumed = [''s1'' \<mapsto> 0]" by (simp add: post_resumed_eq)
  have 7: "was_closed (objs post_resumed 0)" by (simp add: post_resumed_eq)
  have l1: "lookup_session post_resumed (Some ''s1'') = Some (''s1'', 0)"
    and l2: "lookup_session post_resumed (Some ''s2'') = None"
    by (simp_all add: lookup_session_def 6)
  have 8: "fst (snd (mcp_endpoint (initializing ''s1'') (exchange ''GET'' (Some ''s1'')) post_resumed)) =
     [EvHandleRequest 0]"
    by (simp add: mcp_endpoint_def exchange_def l1 split: prod.splits)
  have 9: "mcp_endpoint (initializing ''s1'') (exchange ''GET'' (Some ''s2'')) post_resumed =
     (Responded \<lparr>status = 400, json = ErrorBody ''Invalid or missing session ID''\<rparr>,
      [EvRespond 400], post_resumed)"
    by (simp add: mcp_endpoint_def exchange_def l2)
  have 10: "fst (mcp_endpoint (initializing ''s1'') (exchange ''DELETE'' (Some ''s1'')) post_resumed) =
     Responded \<lparr>status = 200, json = MessageBody ''Session closed''\<rparr>"
    by (simp add: mcp_endpoint_def exchange_def l1 split: prod.splits)
  have 11: "fst (mcp_endpoint (initializing ''s1'') (exchange ''DELETE'' (Some ''s2'')) post_resumed) =
     Responded \<lparr>status = 404, json = ErrorBody ''Session not found''\<rparr>"
    by (simp add: mcp_endpoint_def exchange_def l2)
  from 1 2 3 4 5 6 7 8 9 10 11 show ?thesis by blast
qed

section \<open>The greet prompt and the calculator\<close>

lemma greet_handler_fallback:
  assumes "style = None \<or> style = Some [] \<or>
           (\<exists>s. style = Some s \<and> \<not> own_style s \<and> object_prototype s = JUndefined)"
  shows "greet_handler name style = casual_message name"
  using assms
  by (auto simp: greet_handler_def get_property_def casual_message_def own_style_def Let_def
           object_prototype_def split: if_splits)

text \<open>
  Claim C10 fails on the code. The style \<^verbatim>\<open>toString\<close> is none of the three known keys,
  yet the greet prompt does not return the casual message for it: \<^verbatim>\<open>styles['toString']\<close>
  is the function inherited from \<^verbatim>\<open>Object.prototype\<close>, which is truthy, so the fallback
  \<^verbatim>\<open>|| styles.casual\<close> is not taken and the \<^verbatim>\<open>text\<close> of the message is that function.
  (For a style that is absent, empty, or neither a known key nor a property of
  \<^verbatim>\<open>Object.prototype\<close>, the casual message is returned: \<open>greet_handler_fallback\<close>.)
\<close>

theorem greet_handler_inherited_key:
  "\<not> own_style ''toString'' \<and>
   greet_handler ''Ada'' (Some ''toString'') = JFunction ''toString'' \<and>
   greet_handler ''Ada'' (Some ''toString'') \<noteq> casual_message ''Ada''"
  by (simp add: greet_handler_def get_property_def object_prototype_def casual_message_def
        own_style_def Let_def)

lemma two_power_not_three_times: "(3::int) * m \<noteq> 2 ^ k"
proof
  assume "3 * m = 2 ^ k"
  then have "(3::int) dvd 2 ^ k" by (metis dvd_triv_left)
  moreover have "\<not> (3::int) dvd 2 ^ k"
  proof (induction k)
    case 0
    show ?case by simp
  next
    case (Suc k)
    have "coprime (3::int) 2" by simp
    then have "(3::int) dvd 2 * 2 ^ k \<longleftrightarrow> (3::int) dvd 2 ^ k"
      by (rule coprime_dvd_mult_right_iff)
    with Suc show ?case by simp
  qed
  ultimately show False by blast
qed

lemma third_not_dyadic: "num_value m e \<noteq> 1 / 3"
proof (cases "0 \<le> e")
  case True
  have "(of_int (m * 2 ^ nat e) :: rat) \<noteq> 1 / 3"
  proof
    assume "(of_int (m * 2 ^ nat e) :: rat) = 1 / 3"
    then have "(of_int (3 * (m * 2 ^ nat e)) :: rat) = of_int 1" by simp
    then have "3 * (m * 2 ^ nat e) = 1" by (simp only: of_int_eq_iff)
    then show False by presburger
  qed
  with True show ?thesis by (simp add: num_value_def)
next
  case False
  have "(of_int m :: rat) / 2 ^ nat (- e) \<noteq> 1 / 3"
  proof
    assume "(of_int m :: rat) / 2 ^ nat (- e) = 1 / 3"
    then have "(of_int (3 * m) :: rat) = of_int (2 ^ nat (- e))" by (simp add: field_simps)
    then have "3 * m = 2 ^ nat (- e)" by (simp only: of_int_eq_iff)
    with two_power_not_three_times show False by blast
  qed
  with False show ?thesis by (simp add: num_value_def)
qed

text \<open>
  Claim C9, as the code has it. The handler of \<^verbatim>\<open>bonus_calculator\<close> is a total function of
  its three arguments and has no throwing branch. Its text ends with the result of the
  operation: for \<^verbatim>\<open>add\<close>, \<^verbatim>\<open>subtract\<close> and \<^verbatim>\<open>multiply\<close> what the operator of doubles gives;
  for \<^verbatim>\<open>divide\<close>, \<^verbatim>\<open>NaN\<close> when \<open>b\<close> is a zero and what the division of doubles gives
  otherwise. That is the double the operator rounds to, not the exact result.
\<close>

theorem bonus_calculator_result:
  "bonus_calculator_handler p a b operation =
     Content [Dbl a, Str '' '', Str (op_name operation), Str '' '', Dbl b, Str '' = '',
              Dbl (shown_result p a b operation)] \<and>
   shown_result p a b Add = fl_add p a b \<and>
   shown_result p a b Subtract = fl_sub p a b \<and>
   shown_result p a b Multiply = fl_mul p a b \<and>
   shown_result p a b Divide = (if is_zero b then NaN else fl_div p a b) \<and>
   shown_result p a (Num 0 e) Divide = NaN"
  by (cases operation) (simp_all add: bonus_calculator_handler_def shown_result_def)

lemma call_bonus_calculator:
  "''bonus_calculator'' \<in> set (tools (servers st sid)) \<Longrightarrow>
   call_tool p sid (BonusCalculator a b operation) st =
     (Inr (bonus_calculator_handler p a b operation), st)"
  by (simp add: call_tool_def)

text \<open>
  Counterexample to C9 as stated: \<^verbatim>\<open>a = 1\<close>, \<^verbatim>\<open>b = 3\<close>, \<^verbatim>\<open>operation = divide\<close>. The exact
  quotient is 1/3, which is no double (\<open>third_not_dyadic\<close>): whatever the division of
  doubles returns, the response does not show the exact arithmetic result.
\<close>

theorem bonus_calculator_inexact_counterexample:
  "\<not> is_zero (Num 3 0) \<and>
   exact_result Divide (num_value 1 0) (num_value 3 0) = 1 / 3 \<and>
   \<not> (\<exists>p m e. bonus_calculator_handler p (Num 1 0) (Num 3 0) Divide =
                  Content [Dbl (Num 1 0), Str '' '', Str ''divide'', Str '' '', Dbl (Num 3 0),
                           Str '' = '', Dbl (Num m e)] \<and>
                num_value m e = exact_result Divide (num_value 1 0) (num_value 3 0))"
proof -
  have x: "exact_result Divide (num_value 1 0) (num_value 3 0) = 1 / 3"
    by (simp add: exact_result_def num_value_def)
  have "\<not> (\<exists>p m e. bonus_calculator_handler p (Num 1 0) (Num 3 0) Divide =
                  Content [Dbl (Num 1 0), Str '' '', Str ''divide'', Str '' '', Dbl (Num 3 0),
                           Str '' = '', Dbl (Num m e)] \<and>
                num_value m e = exact_result Divide (num_value 1 0) (num_value 3 0))"
  proof (rule notI, elim exE conjE)
    fix p m e
    assume "num_value m e = exact_result Divide (num_value 1 0) (num_value 3 0)"
    with x have "num_value m e = 1 / 3" by (simp only:)
    with third_not_dyadic[of m e] show False by blast
  qed
  moreover have "\<not> is_zero (Num 3 0)" by simp
  ultimately show ?thesis using x by blast
qed

end
